theory Spec2Isabelle
  imports Complex_Main "HOL-Library.Sublist"
begin

section \<open>JSON values and JavaScript truthiness\<close>

text \<open>
  Request bodies and stored fields are whatever \<^verbatim>\<open>JSON.parse\<close> produced. Numbers are
  kept as integers (every non-zero number is truthy, which is all the handlers look at).
  Strings are byte sequences (UTF-8). A missing property (\<^verbatim>\<open>undefined\<close>) is \<open>None\<close>.
\<close>

datatype json =
    JNull
  | JBool bool
  | JNum int
  | JStr string
  | JArr "json list"
  | JObj "(string \<times> json) list"

text \<open>\<^verbatim>\<open>if (x)\<close>, \<^verbatim>\<open>!x\<close>, \<^verbatim>\<open>x || y\<close>, \<^verbatim>\<open>x && y\<close> on a possibly missing value.\<close>

fun truthy :: "json option \<Rightarrow> bool" where
  "truthy None = False"
| "truthy (Some JNull) = False"
| "truthy (Some (JBool b)) = b"
| "truthy (Some (JNum n)) = (n \<noteq> 0)"
| "truthy (Some (JStr s)) = (s \<noteq> [])"
| "truthy (Some (JArr xs)) = True"
| "truthy (Some (JObj kvs)) = True"

text \<open>The value written by \<^verbatim>\<open>JSON.stringify\<close> for a property read from the body.\<close>

fun value_of :: "json option \<Rightarrow> json" where
  "value_of None = JNull"
| "value_of (Some j) = j"

text \<open>\<^verbatim>\<open>x || d\<close>\<close>

definition or_else :: "json option \<Rightarrow> json \<Rightarrow> json" where
  "or_else x d = (if truthy x then value_of x else d)"

text \<open>
  Property access \<^verbatim>\<open>body.k\<close> after destructuring. With duplicate keys the last one wins.
  Numbers, strings, booleans and arrays have none of the properties the handlers read.
  Destructuring \<^verbatim>\<open>null\<close> throws a TypeError; each handler tests for it where the source
  destructures (\<open>destructure_error\<close> below).
\<close>

fun field :: "json \<Rightarrow> string \<Rightarrow> json option" where
  "field (JObj kvs) k = map_of (rev kvs) k"
| "field j k = None"

section \<open>The request body\<close>

datatype raw_body = NoData | BadJSON | Data json

text \<open>\<^verbatim>\<open>parseBody\<close>: no data resolves to the empty object, unparsable data rejects.\<close>

definition parseBody :: "raw_body \<Rightarrow> string + json" where
  "parseBody r = (case r of
       NoData \<Rightarrow> Inr (JObj [])
     | BadJSON \<Rightarrow> Inl ''Invalid JSON''
     | Data j \<Rightarrow> Inr j)"

section \<open>The store\<close>

text \<open>
  Timestamps written with \<^verbatim>\<open>new Date().toISOString()\<close> and read back with
  \<^verbatim>\<open>new Date(s).getTime()\<close> are kept as their time value in milliseconds.
\<close>

record message =
  m_sender :: json
  m_time :: int
  m_text :: "json option"
  m_attachment :: "string option"

record ticket =
  t_id :: string
  t_email :: json
  t_password :: json
  t_created :: int
  t_status :: json
  t_messages :: "message list"

record client =
  c_id :: string
  c_name :: json
  c_email :: json
  c_startDate :: json
  c_active :: bool
  c_duration :: json
  c_daysLeft :: "json option"

record program =
  p_id :: string
  p_title :: json
  p_description :: json
  p_image :: json

record recipe =
  r_id :: string
  r_title :: json
  r_ingredients :: json
  r_instructions :: json
  r_image :: json

record db =
  admin_username :: string
  admin_password :: string
  clients :: "client list"
  programs :: "program list"
  tickets :: "ticket list"
  recipes :: "recipe list"

definition initDB :: db where
  "initDB = \<lparr> admin_username = ''admin'', admin_password = ''admin123'',
              clients = [], programs = [], tickets = [], recipes = [] \<rparr>"

section \<open>What a request sees of the outside world\<close>

text \<open>
  \<open>clock k\<close> is the k-th reading of the clock during the request (\<^verbatim>\<open>Date.now()\<close> or
  \<^verbatim>\<open>new Date()\<close>, in milliseconds).
  \<open>upload_ok p\<close> tells whether the \<^verbatim>\<open>fs.writeFileSync\<close> of an attachment to the path
  \<open>p\<close> succeeds; \<open>read_file p\<close> is the content \<^verbatim>\<open>fs.readFile\<close> finds at \<open>p\<close>.
  \<open>parse_date v\<close> is the time value of \<^verbatim>\<open>new Date(v)\<close> and \<open>parse_int v\<close> the value of
  \<^verbatim>\<open>parseInt(v)\<close>, each \<open>None\<close> for \<^verbatim>\<open>NaN\<close>.
  \<open>local_tza t isUTC\<close> is the offset of the server's time zone in milliseconds
  (ECMAScript's LocalTZA), at the UTC time \<open>t\<close> when \<open>isUTC\<close> and at the local time \<open>t\<close>
  otherwise.
  \<open>iso_date t\<close> is \<^verbatim>\<open>toISOString().split('T')[0]\<close> of the time \<open>t\<close>.
  \<open>dirname\<close> is \<^verbatim>\<open>__dirname\<close>.

  The store file is taken to be readable and writable: \<^verbatim>\<open>loadDB\<close> returns the store and
  \<^verbatim>\<open>saveDB\<close> writes it. A request during which either of them throws is not modelled.
\<close>

record env =
  clock :: "nat \<Rightarrow> int"
  upload_ok :: "string \<Rightarrow> bool"
  read_file :: "string \<Rightarrow> string option"
  parse_date :: "json \<Rightarrow> int option"
  parse_int :: "json \<Rightarrow> int option"
  local_tza :: "int \<Rightarrow> bool \<Rightarrow> int"
  iso_date :: "int \<Rightarrow> string"
  dirname :: string

record request =
  httpMethod :: string
  url :: string
  body :: raw_body
  searchParams :: "string \<Rightarrow> string option"

datatype payload =
    Error string
  | Success bool
  | Id string
  | Clients "client list"
  | Programs "program list"
  | Tickets "ticket list"
  | Ticket ticket
  | Recipes "recipe list"
  | File string
  | Plain string

type_synonym response = "nat \<times> payload"

section \<open>Identifiers: \<^verbatim>\<open>Date.now().toString(36)\<close>\<close>

definition digit36 :: "nat \<Rightarrow> char" where
  "digit36 d = (if d < 10 then char_of (48 + d) else char_of (87 + d))"

function base36 :: "nat \<Rightarrow> string" where
  "base36 n = (if n < 36 then [digit36 n] else base36 (n div 36) @ [digit36 (n mod 36)])"
  by pat_completeness auto
termination
  by (relation "measure id") auto

declare base36.simps [simp del]

definition toString36 :: "int \<Rightarrow> string" where
  "toString36 n = (if n < 0 then CHR ''-'' # base36 (nat (- n)) else base36 (nat n))"

section \<open>Paths: \<^verbatim>\<open>path.normalize\<close> and \<^verbatim>\<open>path.join\<close> (POSIX)\<close>

text \<open>\<^verbatim>\<open>s.split(c)\<close>: the pieces between occurrences of \<open>c\<close>, never an empty list.\<close>

fun split_on :: "char \<Rightarrow> string \<Rightarrow> string list" where
  "split_on c [] = [[]]"
| "split_on c (x # xs) =
     (if x = c then [] # split_on c xs
      else (case split_on c xs of [] \<Rightarrow> [[x]] | s # ss \<Rightarrow> (x # s) # ss))"

fun join_slash :: "string list \<Rightarrow> string" where
  "join_slash [] = []"
| "join_slash [s] = s"
| "join_slash (s # t # ss) = s @ CHR ''/'' # join_slash (t # ss)"

text \<open>
  \<^verbatim>\<open>normalizeString\<close> of Node's path module, on the segments of the path. The second
  argument holds the segments kept so far, last one first. Empty segments and \<^verbatim>\<open>.\<close> are
  dropped; \<^verbatim>\<open>..\<close> removes the segment before it, and where there is none to remove it is
  kept when the path is relative (\<open>allowAboveRoot\<close>) and dropped when it is absolute.
\<close>

fun normalizeString :: "bool \<Rightarrow> string list \<Rightarrow> string list \<Rightarrow> string list" where
  "normalizeString allowAboveRoot res [] = rev res"
| "normalizeString allowAboveRoot res (s # ss) =
     (if s = [] \<or> s = ''.'' then normalizeString allowAboveRoot res ss
      else if s = ''..'' then
        (case res of
           [] \<Rightarrow> if allowAboveRoot then normalizeString allowAboveRoot [''..''] ss
                 else normalizeString allowAboveRoot [] ss
         | t # ts \<Rightarrow>
             if t = ''..'' then
               (if allowAboveRoot then normalizeString allowAboveRoot (''..'' # res) ss
                else normalizeString allowAboveRoot res ss)
             else normalizeString allowAboveRoot ts ss)
      else normalizeString allowAboveRoot (s # res) ss)"

definition normalize :: "string \<Rightarrow> string" where
  "normalize p =
     (if p = [] then ''.''
      else
        let isAbsolute = (hd p = CHR ''/'');
            trailingSeparator = (last p = CHR ''/'');
            q = join_slash (normalizeString (\<not> isAbsolute) [] (split_on CHR ''/'' p))
        in if q = [] then (if isAbsolute then ''/'' else if trailingSeparator then ''./'' else ''.'')
           else
             let q' = (if trailingSeparator then q @ ''/'' else q)
             in if isAbsolute then CHR ''/'' # q' else q')"

text \<open>\<^verbatim>\<open>path.join(a, b)\<close>: empty arguments are skipped, the rest is normalized.\<close>

definition path_join :: "string \<Rightarrow> string \<Rightarrow> string" where
  "path_join a b =
     (if a = [] \<and> b = [] then ''.''
      else if a = [] then normalize b
      else if b = [] then normalize a
      else normalize (a @ CHR ''/'' # b))"

definition PUBLIC_DIR :: "env \<Rightarrow> string" where
  "PUBLIC_DIR e = path_join (dirname e) ''public''"

definition UPLOAD_DIR :: "env \<Rightarrow> string" where
  "UPLOAD_DIR e = path_join (PUBLIC_DIR e) ''uploads''"

section \<open>Static files\<close>

text \<open>\<^verbatim>\<open>path.normalize(reqPath).replace(/^\/+/, '')\<close>\<close>

definition safePath :: "string \<Rightarrow> string" where
  "safePath reqPath = dropWhile (\<lambda>c. c = CHR ''/'') (normalize reqPath)"

definition filePath :: "env \<Rightarrow> string \<Rightarrow> string" where
  "filePath e u =
     (let reqPath = (if u = ''/'' \<or> u = [] then ''/index.html'' else u)
      in path_join (PUBLIC_DIR e) (safePath reqPath))"

text \<open>The Content-Type header, chosen from the extension, is not part of the model.\<close>

definition serveStatic :: "env \<Rightarrow> string \<Rightarrow> response" where
  "serveStatic e u =
     (case read_file e (filePath e u) of
        None \<Rightarrow> (404, Plain ''Not Found'')
      | Some content \<Rightarrow> (200, File content))"

section \<open>Attachments\<close>

text \<open>The characters kept by \<^verbatim>\<open>fileName.replace(/[^A-Za-z0-9_.-]/g, '')\<close>.\<close>

definition safe_char :: "char \<Rightarrow> bool" where
  "safe_char c =
     (c \<in> set ''ABCDEFGHIJKLMNOPQRSTUVWXYZabcdefghijklmnopqrstuvwxyz0123456789_.-'')"

text \<open>
  The \<^verbatim>\<open>try\<close> block that stores an attachment, entered when \<open>file\<close> and \<open>fileName\<close> are
  both truthy. The result is the value given to \<^verbatim>\<open>msg.attachment\<close>, or \<open>None\<close> when an
  exception was caught: \<^verbatim>\<open>file.indexOf\<close> exists on strings and arrays only,
  \<^verbatim>\<open>substring\<close> and \<^verbatim>\<open>replace\<close> on strings only, and the write to
  \<open>uploadPath\<close> may fail.
  \<open>k\<close> is the index of the clock reading that names the file.
\<close>

definition save_attachment :: "env \<Rightarrow> nat \<Rightarrow> json option \<Rightarrow> json option \<Rightarrow> string option" where
  "save_attachment e k file fileName =
     (let decodable = (case file of
                         Some (JStr s) \<Rightarrow> True
                       | Some (JArr xs) \<Rightarrow> \<not> List.member xs (JStr '','')
                       | _ \<Rightarrow> False)
      in if \<not> decodable then None
         else (case fileName of
                 Some (JStr n) \<Rightarrow>
                   let safeName = toString36 (clock e k) @ ''_'' @ filter safe_char n;
                       uploadPath = path_join (UPLOAD_DIR e) safeName
                   in if upload_ok e uploadPath then Some (''/uploads/'' @ safeName) else None
               | _ \<Rightarrow> None))"

text \<open>The path that block writes to, for a file name \<open>n\<close> (\<^verbatim>\<open>uploadPath\<close>).\<close>

definition upload_path :: "env \<Rightarrow> nat \<Rightarrow> string \<Rightarrow> string" where
  "upload_path e k n =
     path_join (UPLOAD_DIR e) (toString36 (clock e k) @ ''_'' @ filter safe_char n)"

section \<open>The handlers of \<^verbatim>\<open>handleAPI\<close>\<close>

text \<open>
  Each handler takes the store as \<^verbatim>\<open>loadDB\<close> returns it and gives the response and
  the store afterwards (the argument itself when \<^verbatim>\<open>saveDB\<close> was not called).
  The \<^verbatim>\<open>.catch\<close> of every body-reading route answers 400 with the message of the error.
\<close>

definition destructure_error :: string where
  "destructure_error = ''Cannot destructure property of null''"

definition post_login :: "json \<Rightarrow> db \<Rightarrow> response \<times> db" where
  "post_login b d =
     (if b = JNull then ((400, Error destructure_error), d)
      else
        let success = (field b ''username'' = Some (JStr (admin_username d)) \<and>
                       field b ''password'' = Some (JStr (admin_password d)))
        in ((if success then 200 else 401, Success success), d))"

subsection \<open>Dates\<close>

text \<open>
  The part of ECMAScript's Date that GET /api/clients uses. A time value is a number of
  milliseconds since 1 January 1970 UTC, \<open>None\<close> standing for \<^verbatim>\<open>NaN\<close> (an invalid date).
  \<open>civil\<close> gives the year, the month (0 to 11) and the day of the month of a day number
  (YearFromTime, MonthFromTime, DateFromTime); \<open>MakeDay\<close> gives the day number of a year,
  a month counted from January of that year (any integer) and a day of the month;
  \<open>TimeClip\<close> refuses times beyond 100 million days.
\<close>

definition msPerDay :: int where
  "msPerDay = 86400000"

definition civil :: "int \<Rightarrow> int \<times> int \<times> int" where
  "civil day =
     (let z = day + 719468;
          era = z div 146097;
          doe = z mod 146097;
          yoe = (doe - doe div 1460 + doe div 36524 - doe div 146096) div 365;
          doy = doe - (365 * yoe + yoe div 4 - yoe div 100);
          mp = (5 * doy + 2) div 153;
          d = doy - (153 * mp + 2) div 5 + 1;
          m = (if mp < 10 then mp + 3 else mp - 9);
          y = yoe + era * 400 + (if m \<le> 2 then 1 else 0)
      in (y, m - 1, d))"

definition MakeDay :: "int \<Rightarrow> int \<Rightarrow> int \<Rightarrow> int" where
  "MakeDay year month date =
     (let ym = year + month div 12;
          m = month mod 12 + 1;
          y = ym - (if m \<le> 2 then 1 else 0);
          era = y div 400;
          yoe = y mod 400;
          doy = (153 * (if m > 2 then m - 3 else m + 9) + 2) div 5;
          doe = yoe * 365 + yoe div 4 - yoe div 100 + doy
      in era * 146097 + doe - 719468 + date - 1)"

definition TimeClip :: "int \<Rightarrow> int option" where
  "TimeClip t = (if \<bar>t\<bar> > 8640000000000000 then None else Some t)"

text \<open>\<^verbatim>\<open>getMonth()\<close> and \<^verbatim>\<open>setMonth(month)\<close> of a valid date, in the server's time zone.\<close>

definition getMonth :: "env \<Rightarrow> int \<Rightarrow> int" where
  "getMonth e t = fst (snd (civil ((t + local_tza e t True) div msPerDay)))"

definition setMonth :: "env \<Rightarrow> int \<Rightarrow> int \<Rightarrow> int option" where
  "setMonth e t month =
     (let lt = t + local_tza e t True;
          (year, m, date) = civil (lt div msPerDay);
          newDate = MakeDay year month date * msPerDay + lt mod msPerDay
      in TimeClip (newDate - local_tza e newDate False))"

text \<open>
  \<^verbatim>\<open>start = new Date(client.startDate); end = new Date(start);\<close>
  \<^verbatim>\<open>end.setMonth(end.getMonth() + parseInt(client.duration)); end.getTime()\<close>.
  An invalid start date and a duration that is not a number both give \<^verbatim>\<open>NaN\<close>.
\<close>

definition end_of_period :: "env \<Rightarrow> client \<Rightarrow> int option" where
  "end_of_period e c =
     (case parse_date e (c_startDate c) of
        None \<Rightarrow> None
      | Some start \<Rightarrow>
          (case parse_int e (c_duration c) of
             None \<Rightarrow> None
           | Some months \<Rightarrow> setMonth e start (getMonth e start + months)))"

subsection \<open>Clients\<close>

text \<open>
  The body of the \<^verbatim>\<open>forEach\<close> of GET /api/clients: the client as mutated, and whether
  \<open>updated\<close> was set. A \<^verbatim>\<open>NaN\<close> difference compares false with everything, so it
  gives \<open>daysLeft = 0\<close> and leaves \<open>active\<close> alone.
\<close>

definition refresh_client :: "env \<Rightarrow> int \<Rightarrow> client \<Rightarrow> client \<times> bool" where
  "refresh_client e now c =
     (if truthy (Some (c_startDate c)) \<and> truthy (Some (c_duration c)) then
        (case end_of_period e c of
           None \<Rightarrow> (c\<lparr>c_daysLeft := Some (JNum 0)\<rparr>, False)
         | Some end \<Rightarrow>
             let diffMs = end - now;
                 daysLeft = \<lceil>real_of_int diffMs / (1000 * 3600 * 24)\<rceil>;
                 c1 = c\<lparr>c_daysLeft := Some (JNum (if daysLeft > 0 then daysLeft else 0))\<rparr>
             in if c_active c \<and> daysLeft \<le> 0 then (c1\<lparr>c_active := False\<rparr>, True)
                else (c1, False))
      else (c\<lparr>c_daysLeft := Some JNull\<rparr>, False))"

definition get_clients :: "env \<Rightarrow> db \<Rightarrow> response \<times> db" where
  "get_clients e d =
     (let now = clock e 0;
          rs = map (refresh_client e now) (clients d);
          updated = list_ex snd rs;
          d' = d\<lparr>clients := map fst rs\<rparr>
      in ((200, Clients (map fst rs)), if updated then d' else d))"

definition post_clients :: "env \<Rightarrow> json \<Rightarrow> db \<Rightarrow> response \<times> db" where
  "post_clients e b d =
     (if b = JNull then ((400, Error destructure_error), d)
      else
        let name = field b ''name''; email = field b ''email'';
            startDate = field b ''startDate''; active = field b ''active'';
            duration = field b ''duration''
        in if \<not> truthy name \<or> \<not> truthy email
           then ((400, Error ''name and email required''), d)
           else
             let ident = toString36 (clock e 0);
                 c = \<lparr> c_id = ident, c_name = value_of name, c_email = value_of email,
                       c_startDate = or_else startDate (JStr (iso_date e (clock e 1))),
                       c_active = (active \<noteq> Some (JBool False)),
                       c_duration = or_else duration JNull,
                       c_daysLeft = None \<rparr>
             in ((201, Id ident), d\<lparr>clients := clients d @ [c]\<rparr>))"

subsection \<open>Programs\<close>

definition get_programs :: "db \<Rightarrow> response \<times> db" where
  "get_programs d = ((200, Programs (programs d)), d)"

definition post_programs :: "env \<Rightarrow> json \<Rightarrow> db \<Rightarrow> response \<times> db" where
  "post_programs e b d =
     (if b = JNull then ((400, Error destructure_error), d)
      else
        let title = field b ''title''; description = field b ''description'';
            image = field b ''image''
        in if \<not> truthy title then ((400, Error ''title required''), d)
           else
             let ident = toString36 (clock e 0);
                 p = \<lparr> p_id = ident, p_title = value_of title,
                       p_description = or_else description (JStr []),
                       p_image = or_else image JNull \<rparr>
             in ((201, Id ident), d\<lparr>programs := programs d @ [p]\<rparr>))"

subsection \<open>Tickets\<close>

text \<open>
  The two fixed texts (in UTF-8; they hold the Turkish letters dotless i and c with
  cedilla).
\<close>

definition closing_text :: string where
  "closing_text = ''Destek talebiniz kapat'' @ [CHR 0xC4, CHR 0xB1] @ ''ld''
                   @ [CHR 0xC4, CHR 0xB1] @ ''.''"

definition reopening_text :: string where
  "reopening_text = ''Destek talebiniz yeniden a'' @ [CHR 0xC3, CHR 0xA7, CHR 0xC4, CHR 0xB1]
                     @ ''ld'' @ [CHR 0xC4, CHR 0xB1] @ ''.''"

text \<open>\<^verbatim>\<open>xs.find(t => t.id === id)\<close>; \<open>id\<close> is \<open>None\<close> when \<^verbatim>\<open>parts[3]\<close> is undefined.\<close>

definition find_ticket :: "string option \<Rightarrow> ticket list \<Rightarrow> ticket option" where
  "find_ticket ident ts = List.find (\<lambda>t. Some (t_id t) = ident) ts"

text \<open>Mutating the element that \<^verbatim>\<open>find\<close> returned: the first one that satisfies \<open>P\<close>.\<close>

fun update_first :: "('a \<Rightarrow> bool) \<Rightarrow> ('a \<Rightarrow> 'a) \<Rightarrow> 'a list \<Rightarrow> 'a list" where
  "update_first P f [] = []"
| "update_first P f (x # xs) = (if P x then f x # xs else x # update_first P f xs)"

text \<open>\<^verbatim>\<open>findIndex\<close> followed by \<^verbatim>\<open>splice(index, 1)\<close>.\<close>

fun remove_first :: "('a \<Rightarrow> bool) \<Rightarrow> 'a list \<Rightarrow> 'a list" where
  "remove_first P [] = []"
| "remove_first P (x # xs) = (if P x then xs else x # remove_first P xs)"

definition get_tickets :: "db \<Rightarrow> response \<times> db" where
  "get_tickets d = ((200, Tickets (tickets d)), d)"

definition post_support_create :: "env \<Rightarrow> json \<Rightarrow> db \<Rightarrow> response \<times> db" where
  "post_support_create e b d =
     (if b = JNull then ((400, Error destructure_error), d)
      else
        let email = field b ''email''; password = field b ''password'';
            message = field b ''message''; file = field b ''file'';
            fileName = field b ''fileName''
        in if \<not> truthy email \<or> \<not> truthy password
           then ((400, Error ''email and password required''), d)
           else
             let ident = toString36 (clock e 0);
                 created = clock e 1;
                 msgs =
                   (if truthy message \<or> (truthy file \<and> truthy fileName) then
                      [\<lparr> m_sender = JStr ''client'', m_time = clock e 2,
                         m_text = (if truthy message then message else None),
                         m_attachment = (if truthy file \<and> truthy fileName
                                         then save_attachment e 3 file fileName else None) \<rparr>]
                    else []);
                 ticket = \<lparr> t_id = ident, t_email = value_of email,
                            t_password = value_of password, t_created = created,
                            t_status = JStr ''open'', t_messages = msgs \<rparr>
             in ((201, Ticket ticket), d\<lparr>tickets := tickets d @ [ticket]\<rparr>))"

definition get_ticket :: "string option \<Rightarrow> db \<Rightarrow> response \<times> db" where
  "get_ticket ident d =
     (case find_ticket ident (tickets d) of
        None \<Rightarrow> ((404, Error ''not found''), d)
      | Some t \<Rightarrow> ((200, Ticket t), d))"

definition post_message :: "env \<Rightarrow> string option \<Rightarrow> json \<Rightarrow> db \<Rightarrow> response \<times> db" where
  "post_message e ident b d =
     (if b = JNull then ((400, Error destructure_error), d)
      else
        let sender = field b ''sender''; text = field b ''text'';
            file = field b ''file''; fileName = field b ''fileName''
        in if \<not> truthy text \<and> \<not> truthy file
           then ((400, Error ''text or file required''), d)
           else
             (case find_ticket ident (tickets d) of
                None \<Rightarrow> ((404, Error ''not found''), d)
              | Some t \<Rightarrow>
                  let msg = \<lparr> m_sender = or_else sender (JStr ''client''), m_time = clock e 0,
                              m_text = (if truthy text then text else None),
                              m_attachment = (if truthy file \<and> truthy fileName
                                              then save_attachment e 1 file fileName
                                              else None) \<rparr>
                  in ((200, Success True),
                      d\<lparr>tickets := update_first (\<lambda>t. Some (t_id t) = ident)
                                     (\<lambda>t. t\<lparr>t_messages := t_messages t @ [msg]\<rparr>)
                                     (tickets d)\<rparr>)))"

definition admin_message :: "string \<Rightarrow> int \<Rightarrow> message" where
  "admin_message txt now =
     \<lparr> m_sender = JStr ''admin'', m_time = now, m_text = Some (JStr txt), m_attachment = None \<rparr>"

text \<open>The mutation PUT /api/tickets/:id applies to the ticket found, for a truthy \<open>status\<close>.\<close>

definition set_status :: "env \<Rightarrow> json \<Rightarrow> ticket \<Rightarrow> ticket" where
  "set_status e status t =
     (let oldStatus = or_else (Some (t_status t)) (JStr ''open'');
          t1 = t\<lparr>t_status := status\<rparr>;
          t2 = (if status = JStr ''closed'' \<and> oldStatus \<noteq> JStr ''closed''
                then t1\<lparr>t_messages := t_messages t1 @ [admin_message closing_text (clock e 0)]\<rparr>
                else t1)
      in if status = JStr ''open'' \<and> oldStatus = JStr ''closed''
         then t2\<lparr>t_messages := t_messages t2 @ [admin_message reopening_text (clock e 0)]\<rparr>
         else t2)"

definition put_ticket :: "env \<Rightarrow> string option \<Rightarrow> json \<Rightarrow> db \<Rightarrow> response \<times> db" where
  "put_ticket e ident b d =
     (if b = JNull then ((400, Error destructure_error), d)
      else
        let status = field b ''status''
        in (case find_ticket ident (tickets d) of
              None \<Rightarrow> ((404, Error ''not found''), d)
            | Some t \<Rightarrow>
                ((200, Success True),
                 if truthy status
                 then d\<lparr>tickets := update_first (\<lambda>t. Some (t_id t) = ident)
                                      (set_status e (value_of status)) (tickets d)\<rparr>
                 else d)))"

definition delete_ticket :: "string option \<Rightarrow> db \<Rightarrow> response \<times> db" where
  "delete_ticket ident d =
     (if \<not> list_ex (\<lambda>t. Some (t_id t) = ident) (tickets d)
      then ((404, Error ''not found''), d)
      else ((200, Success True),
            d\<lparr>tickets := remove_first (\<lambda>t. Some (t_id t) = ident) (tickets d)\<rparr>))"

text \<open>\<^verbatim>\<open>!x\<close> for a query parameter, which is \<^verbatim>\<open>null\<close> or a string.\<close>

fun missing :: "string option \<Rightarrow> bool" where
  "missing None = True"
| "missing (Some s) = (s = [])"

text \<open>
  GET /api/user/ticket. \<open>searchParams\<close> is what the URL parser found in the query of the
  request. \<^verbatim>\<open>Array.prototype.sort\<close> is stable; the comparator orders by \<open>created\<close>,
  latest first.
\<close>

definition get_user_ticket :: "request \<Rightarrow> db \<Rightarrow> response \<times> db" where
  "get_user_ticket r d =
     (let email = searchParams r ''email''; password = searchParams r ''password''
      in if missing email \<or> missing password
         then ((400, Error ''email and password required''), d)
         else
           let ts = filter (\<lambda>t. Some (t_email t) = map_option JStr email \<and>
                                Some (t_password t) = map_option JStr password) (tickets d)
           in if length ts = 0 then ((404, Error ''no tickets found''), d)
              else ((200, Ticket (hd (sort_key (\<lambda>t. - t_created t) ts))), d))"

subsection \<open>Recipes\<close>

definition get_recipes :: "db \<Rightarrow> response \<times> db" where
  "get_recipes d = ((200, Recipes (recipes d)), d)"

definition post_recipes :: "env \<Rightarrow> json \<Rightarrow> db \<Rightarrow> response \<times> db" where
  "post_recipes e b d =
     (if b = JNull then ((400, Error destructure_error), d)
      else
        let title = field b ''title''; ingredients = field b ''ingredients'';
            instructions = field b ''instructions''; image = field b ''image''
        in if \<not> truthy title then ((400, Error ''title required''), d)
           else
             let ident = toString36 (clock e 0);
                 r = \<lparr> r_id = ident, r_title = value_of title,
                       r_ingredients = or_else ingredients (JStr []),
                       r_instructions = or_else instructions (JStr []),
                       r_image = or_else image JNull \<rparr>
             in ((201, Id ident), d\<lparr>recipes := recipes d @ [r]\<rparr>))"

text \<open>\<^verbatim>\<open>if (v !== undefined) recipe.k = v\<close>\<close>

definition assign :: "json option \<Rightarrow> json \<Rightarrow> json" where
  "assign v old = (case v of None \<Rightarrow> old | Some j \<Rightarrow> j)"

definition put_recipe :: "string option \<Rightarrow> json \<Rightarrow> db \<Rightarrow> response \<times> db" where
  "put_recipe ident b d =
     (if \<not> list_ex (\<lambda>r. Some (r_id r) = ident) (recipes d)
      then ((404, Error ''not found''), d)
      else if b = JNull then ((400, Error destructure_error), d)
      else
        ((200, Success True),
         d\<lparr>recipes := update_first (\<lambda>r. Some (r_id r) = ident)
              (\<lambda>r. r\<lparr> r_title := assign (field b ''title'') (r_title r),
                      r_ingredients := assign (field b ''ingredients'') (r_ingredients r),
                      r_instructions := assign (field b ''instructions'') (r_instructions r),
                      r_image := assign (field b ''image'') (r_image r) \<rparr>)
              (recipes d)\<rparr>))"

definition delete_recipe :: "string option \<Rightarrow> db \<Rightarrow> response \<times> db" where
  "delete_recipe ident d =
     (if \<not> list_ex (\<lambda>r. Some (r_id r) = ident) (recipes d)
      then ((404, Error ''not found''), d)
      else ((200, Success True),
            d\<lparr>recipes := remove_first (\<lambda>r. Some (r_id r) = ident) (recipes d)\<rparr>))"

section \<open>Routing\<close>

text \<open>\<^verbatim>\<open>url.split('/')[k]\<close>, \<open>None\<close> where the array is too short.\<close>

definition part :: "string \<Rightarrow> nat \<Rightarrow> string option" where
  "part u k = (let parts = split_on CHR ''/'' u
               in if k < length parts then Some (parts ! k) else None)"

text \<open>\<^verbatim>\<open>parseBody(req).then(handler).catch(...)\<close>\<close>

definition with_body :: "request \<Rightarrow> (json \<Rightarrow> db \<Rightarrow> response \<times> db) \<Rightarrow> db \<Rightarrow> response \<times> db" where
  "with_body r handler d =
     (case parseBody (body r) of
        Inl msg \<Rightarrow> ((400, Error msg), d)
      | Inr b \<Rightarrow> handler b d)"

definition handleAPI :: "env \<Rightarrow> request \<Rightarrow> db \<Rightarrow> response \<times> db" where
  "handleAPI e r d =
     (let m = httpMethod r; u = url r
      in if u = ''/api/login'' \<and> m = ''POST'' then with_body r post_login d
         else if u = ''/api/clients'' \<and> m = ''GET'' then get_clients e d
         else if u = ''/api/clients'' \<and> m = ''POST'' then with_body r (post_clients e) d
         else if u = ''/api/programs'' \<and> m = ''GET'' then get_programs d
         else if u = ''/api/programs'' \<and> m = ''POST'' then with_body r (post_programs e) d
         else if u = ''/api/tickets'' \<and> m = ''GET'' then get_tickets d
         else if u = ''/api/support/create'' \<and> m = ''POST''
           then with_body r (post_support_create e) d
         else if m = ''GET'' \<and> prefix ''/api/tickets/'' u then get_ticket (part u 3) d
         else if m = ''POST'' \<and> prefix ''/api/tickets/'' u \<and> part u 4 = Some ''message''
           then with_body r (post_message e (part u 3)) d
         else if m = ''PUT'' \<and> prefix ''/api/tickets/'' u
           then with_body r (put_ticket e (part u 3)) d
         else if m = ''DELETE'' \<and> prefix ''/api/tickets/'' u then delete_ticket (part u 3) d
         else if u = ''/api/recipes'' \<and> m = ''GET'' then get_recipes d
         else if u = ''/api/recipes'' \<and> m = ''POST'' then with_body r (post_recipes e) d
         else if m = ''PUT'' \<and> prefix ''/api/recipes/'' u
           then with_body r (put_recipe (part u 3)) d
         else if m = ''DELETE'' \<and> prefix ''/api/recipes/'' u then delete_recipe (part u 3) d
         else if m = ''GET'' \<and> prefix ''/api/user/ticket'' u then get_user_ticket r d
         else ((404, Error ''unknown endpoint''), d))"

definition requestHandler :: "env \<Rightarrow> request \<Rightarrow> db \<Rightarrow> response \<times> db" where
  "requestHandler e r d =
     (if prefix ''/api/'' (url r) then handleAPI e r d
      else (serveStatic e (url r), d))"

text \<open>The server handling a sequence of requests, one after the other.\<close>

fun serve :: "(env \<times> request) list \<Rightarrow> db \<Rightarrow> db" where
  "serve [] d = d"
| "serve ((e, r) # rest) d = serve rest (snd (requestHandler e r d))"

section \<open>Auxiliary definitions\<close>

text \<open>Reading a base-36 numeral back, the inverse of \<open>base36\<close>.\<close>

definition digit_val :: "char \<Rightarrow> nat" where
  "digit_val c = (let k = of_char c in if k < 58 then k - 48 else k - 87)"

definition val36 :: "string \<Rightarrow> nat" where
  "val36 s = foldl (\<lambda>a c. 36 * a + digit_val c) 0 s"

text \<open>The two states of a ticket, and the status property a request body carries.\<close>

definition valid_status :: "json \<Rightarrow> bool" where
  "valid_status s = (s = JStr ''open'' \<or> s = JStr ''closed'')"

definition requested_status :: "request \<Rightarrow> json option" where
  "requested_status r = (case parseBody (body r) of Inl msg \<Rightarrow> None | Inr b \<Rightarrow> field b ''status'')"

text \<open>Identifiers that are pairwise different and were made from clock readings in \<open>T\<close>.\<close>

definition ids_from :: "int set \<Rightarrow> string list \<Rightarrow> bool" where
  "ids_from T ids = (distinct ids \<and> set ids \<subseteq> toString36 ` T)"

definition unique_ids :: "int set \<Rightarrow> db \<Rightarrow> bool" where
  "unique_ids T d =
     (ids_from T (map c_id (clients d)) \<and> ids_from T (map p_id (programs d)) \<and>
      ids_from T (map t_id (tickets d)) \<and> ids_from T (map r_id (recipes d)))"

text \<open>A path segment that names a file or a directory below the one it is read in.\<close>

definition proper :: "string \<Rightarrow> bool" where
  "proper s = (s \<noteq> [] \<and> s \<noteq> ''.'' \<and> s \<noteq> ''..'' \<and> CHR ''/'' \<notin> set s)"

text \<open>
  A request with no query parameters, and an environment for the examples: a server on
  UTC whose uploads can be written, which holds no static file and recognises no date.
\<close>

definition req :: "string \<Rightarrow> string \<Rightarrow> raw_body \<Rightarrow> request" where
  "req m u b = \<lparr> httpMethod = m, url = u, body = b, searchParams = (\<lambda>k. None) \<rparr>"

definition env0 :: env where
  "env0 = \<lparr> clock = (\<lambda>k. 1000 + int k), upload_ok = (\<lambda>p. True), read_file = (\<lambda>p. None),
             parse_date = (\<lambda>v. None),
             parse_int = (\<lambda>v. case v of JNum n \<Rightarrow> Some n | _ \<Rightarrow> None),
             local_tza = (\<lambda>t isUTC. 0),
             iso_date = (\<lambda>t. ''2024-01-01''), dirname = ''/srv/app'' \<rparr>"

text \<open>
  A store holding one open ticket without messages, as POST /api/support/create leaves
  it on the initial store at clock reading 1000, and an environment in which nothing
  can be written under the uploads directory (as when it could not be created).
\<close>

definition ticket0 :: ticket where
  "ticket0 = \<lparr> t_id = ''rs'', t_email = JStr ''ann@example.org'', t_password = JStr ''pw'',
                 t_created = 1001, t_status = JStr ''open'', t_messages = [] \<rparr>"

definition db1 :: db where
  "db1 = initDB\<lparr>tickets := [ticket0]\<rparr>"

definition env_no_uploads :: env where
  "env_no_uploads = env0\<lparr>upload_ok := (\<lambda>p. \<not> prefix ''/srv/app/public/uploads/'' p)\<rparr>"

text \<open>
  A second ticket with the credentials of the first, created later, a store holding
  both, and the lookup request for these credentials.
\<close>

definition ticket1 :: ticket where
  "ticket1 = ticket0\<lparr> t_id := ''1jk'', t_created := 2001 \<rparr>"

definition db2 :: db where
  "db2 = initDB\<lparr>tickets := [ticket0, ticket1]\<rparr>"

definition lookup :: "string \<Rightarrow> string \<Rightarrow> request" where
  "lookup email password =
     \<lparr> httpMethod = ''GET'', url = ''/api/user/ticket'', body = NoData,
       searchParams = (\<lambda>k. if k = ''email'' then Some email
                           else if k = ''password'' then Some password else None) \<rparr>"

text \<open>
  Two active clients with a duration of one month, read at noon (UTC) of 10 February
  2024 on a server that parses their start dates as midnight UTC of 15 January 2024
  and of 1 December 2023. A third active client has a start date that is no date.
\<close>

definition ann :: client where
  "ann = \<lparr> c_id = ''lre5s000'', c_name = JStr ''Ann'', c_email = JStr ''ann@example.org'',
            c_startDate = JStr ''2024-01-15'', c_active = True, c_duration = JNum 1,
            c_daysLeft = None \<rparr>"

definition bob :: client where
  "bob = \<lparr> c_id = ''lpluyo00'', c_name = JStr ''Bob'', c_email = JStr ''bob@example.org'',
            c_startDate = JStr ''2023-12-01'', c_active = True, c_duration = JNum 1,
            c_daysLeft = None \<rparr>"

definition carl :: client where
  "carl = \<lparr> c_id = ''lre5s001'', c_name = JStr ''Carl'', c_email = JStr ''carl@example.org'',
             c_startDate = JStr ''soon'', c_active = True, c_duration = JNum 3,
             c_daysLeft = None \<rparr>"

definition db3 :: db where
  "db3 = initDB\<lparr>clients := [ann, bob]\<rparr>"

definition db4 :: db where
  "db4 = initDB\<lparr>clients := [carl]\<rparr>"

definition env_feb :: env where
  "env_feb = env0\<lparr> clock := (\<lambda>k. 1707566400000),
                     parse_date := (\<lambda>v. if v = JStr ''2024-01-15'' then Some 1705276800000
                                         else if v = JStr ''2023-12-01'' then Some 1701388800000
                                         else None) \<rparr>"

text \<open>
  A ticket is opened, closed, reopened, and at last given a status of the caller's
  invention.
\<close>

definition open_ticket :: request where
  "open_ticket = req ''POST'' ''/api/support/create''
     (Data (JObj [(''email'', JStr ''ann@example.org''), (''password'', JStr ''pw'')]))"

definition put_status :: "string \<Rightarrow> request" where
  "put_status s = req ''PUT'' ''/api/tickets/rs'' (Data (JObj [(''status'', JStr s)]))"

definition reopened :: "(env \<times> request) list" where
  "reopened = [(env0, open_ticket), (env0, put_status ''closed''), (env0, put_status ''open'')]"

definition pending :: "(env \<times> request) list" where
  "pending = reopened @ [(env0, put_status ''pending'')]"

text \<open>The recipe request of the example, and a later clock reading.\<close>

definition salad :: request where
  "salad = req ''POST'' ''/api/recipes'' (Data (JObj [(''title'', JStr ''Salad'')]))"

definition env_later :: env where
  "env_later = env0\<lparr>clock := (\<lambda>k. 2000 + int k)\<rparr>"

text \<open>
  A disk that holds the store next to the public directory, and a request in absolute
  form (as a client sends it to a proxy) whose path climbs out of that directory.
\<close>

definition env_disk :: env where
  "env_disk = env0\<lparr>read_file := (\<lambda>p. if p = ''/srv/app/database.json''
                                       then Some ''admin123'' else None)\<rparr>"

definition climbing :: request where
  "climbing = req ''GET'' ''http://h/../../../database.json'' NoData"

section \<open>Identifiers are non-empty and determine the clock reading\<close>

lemma base36_not_Nil: "base36 n \<noteq> []"
  by (subst base36.simps) simp

lemma digit_val_digit36: "d < 36 \<Longrightarrow> digit_val (digit36 d) = d"
  by (simp add: digit_val_def digit36_def Let_def)

lemma digit36_not_minus: "d < 36 \<Longrightarrow> digit36 d \<noteq> CHR ''-''"
proof
  assume d: "d < 36" and eq: "digit36 d = CHR ''-''"
  have "(of_char (digit36 d) :: nat) = of_char (CHR ''-'')" using eq by simp
  with d show False by (simp add: digit36_def split: if_splits)
qed

lemma val36_snoc: "val36 (s @ [c]) = 36 * val36 s + digit_val c"
  by (simp add: val36_def)

lemma val36_base36: "val36 (base36 n) = n"
proof (induction n rule: base36.induct)
  case (1 n)
  show ?case
  proof (cases "n < 36")
    case True
    then show ?thesis by (subst base36.simps) (simp add: val36_def digit_val_digit36)
  next
    case False
    with 1 have "val36 (base36 (n div 36)) = n div 36" by simp
    with False show ?thesis
      by (subst base36.simps) (simp add: val36_snoc digit_val_digit36)
  qed
qed

lemma base36_inj: "base36 n = base36 m \<Longrightarrow> n = m"
  using val36_base36 by metis

lemma minus_notin_base36: "CHR ''-'' \<notin> set (base36 n)"
proof (induction n rule: base36.induct)
  case (1 n)
  show ?case
  proof (cases "n < 36")
    case True
    then show ?thesis using digit36_not_minus[of n] by (subst base36.simps) auto
  next
    case False
    with 1 have "CHR ''-'' \<notin> set (base36 (n div 36))" by simp
    moreover have "digit36 (n mod 36) \<noteq> CHR ''-''" by (rule digit36_not_minus) simp
    ultimately show ?thesis using False by (subst base36.simps) auto
  qed
qed

lemma hd_base36: "hd (base36 n) \<noteq> CHR ''-''"
  using minus_notin_base36 base36_not_Nil by (metis hd_in_set)

lemma toString36_inj: "toString36 a = toString36 b \<Longrightarrow> a = b"
proof (cases "a < 0"; cases "b < 0")
  assume eq: "toString36 a = toString36 b"
  {
    assume neg: "a < 0" "b < 0"
    with eq have "base36 (nat (- a)) = base36 (nat (- b))" by (simp add: toString36_def)
    then have "nat (- a) = nat (- b)" by (rule base36_inj)
    with neg show "a = b" by simp
  next
    assume "a < 0" "\<not> b < 0"
    with eq have "CHR ''-'' # base36 (nat (- a)) = base36 (nat b)" by (simp add: toString36_def)
    then have "hd (base36 (nat b)) = CHR ''-''" by (metis list.sel(1))
    with hd_base36 show "a = b" by blast
  next
    assume "\<not> a < 0" "b < 0"
    with eq have "base36 (nat a) = CHR ''-'' # base36 (nat (- b))" by (simp add: toString36_def)
    then have "hd (base36 (nat a)) = CHR ''-''" by (metis list.sel(1))
    with hd_base36 show "a = b" by blast
  next
    assume pos: "\<not> a < 0" "\<not> b < 0"
    with eq have "base36 (nat a) = base36 (nat b)" by (simp add: toString36_def)
    then have "nat a = nat b" by (rule base36_inj)
    with pos show "a = b" by simp
  }
qed

lemma toString36_not_Nil: "toString36 n \<noteq> []"
  by (simp add: toString36_def base36_not_Nil)

section \<open>Recipes: create, then list\<close>

lemmas route_defs = requestHandler_def handleAPI_def req_def with_body_def parseBody_def Let_def

text \<open>
  Claim C9. POST /api/recipes with the body \<^verbatim>\<open>{title:"Salad"}\<close> answers 201 with a
  non-empty generated id, whatever the store and the clock; a GET /api/recipes on the
  store it leaves answers 200 with a collection that holds the recipe with that id,
  title "Salad", empty ingredients and instructions and a null image, and does not
  change the store.
\<close>

theorem recipe_post_then_get:
  fixes e e' :: env and d :: db and b' :: raw_body
  defines "ident \<equiv> toString36 (clock e 0)"
  defines "post \<equiv> requestHandler e
                    (req ''POST'' ''/api/recipes'' (Data (JObj [(''title'', JStr ''Salad'')]))) d"
  shows "fst post = (201, Id ident) \<and> ident \<noteq> [] \<and>
         (\<exists>rs. requestHandler e' (req ''GET'' ''/api/recipes'' b') (snd post)
                 = ((200, Recipes rs), snd post) \<and>
               \<lparr> r_id = ident, r_title = JStr ''Salad'', r_ingredients = JStr [],
                 r_instructions = JStr [], r_image = JNull \<rparr> \<in> set rs)"
  unfolding ident_def post_def
  by (simp add: route_defs post_recipes_def get_recipes_def or_else_def toString36_not_Nil)

text \<open>On the initial store at clock reading 1000 the generated id is \<^verbatim>\<open>rs\<close>.\<close>

theorem recipe_post_then_get_witness:
  "fst (requestHandler env0
          (req ''POST'' ''/api/recipes'' (Data (JObj [(''title'', JStr ''Salad'')]))) initDB)
     = (201, Id ''rs'') \<and>
   requestHandler env0 (req ''GET'' ''/api/recipes'' NoData)
      (snd (requestHandler env0
          (req ''POST'' ''/api/recipes'' (Data (JObj [(''title'', JStr ''Salad'')]))) initDB))
     = ((200, Recipes [\<lparr> r_id = ''rs'', r_title = JStr ''Salad'', r_ingredients = JStr [],
                 r_instructions = JStr [], r_image = JNull \<rparr>]),
        initDB\<lparr>recipes := [\<lparr> r_id = ''rs'', r_title = JStr ''Salad'', r_ingredients = JStr [],
                 r_instructions = JStr [], r_image = JNull \<rparr>]\<rparr>)"
proof -
  have ident: "toString36 (clock env0 0) = ''rs''" by code_simp
  show ?thesis
    using recipe_post_then_get [of env0 initDB env0 NoData] ident
    by (auto simp add: route_defs post_recipes_def get_recipes_def or_else_def initDB_def)
qed

section \<open>Where requests are routed\<close>

text \<open>Which handler a request reaches, from its method and URL.\<close>

lemma tickets_prefix_cases:
  assumes "prefix ''/api/tickets/'' u"
  shows "prefix ''/api/'' u" "u \<noteq> ''/api/login''" "u \<noteq> ''/api/clients''" "u \<noteq> ''/api/programs''"
    "u \<noteq> ''/api/tickets''" "u \<noteq> ''/api/support/create''" "u \<noteq> ''/api/recipes''"
  using assms by (auto simp: prefix_def)

lemma route_put_ticket:
  assumes "httpMethod r = ''PUT''" "prefix ''/api/tickets/'' (url r)"
  shows "requestHandler e r d = with_body r (put_ticket e (part (url r) 3)) d"
  using assms tickets_prefix_cases[OF assms(2)]
  by (simp add: requestHandler_def handleAPI_def Let_def)

lemma route_post_message:
  assumes "httpMethod r = ''POST''" "prefix ''/api/tickets/'' (url r)"
    "part (url r) 4 = Some ''message''"
  shows "requestHandler e r d = with_body r (post_message e (part (url r) 3)) d"
  using assms tickets_prefix_cases[OF assms(2)]
  by (simp add: requestHandler_def handleAPI_def Let_def)

lemma route_support_create:
  assumes "httpMethod r = ''POST''" "url r = ''/api/support/create''"
  shows "requestHandler e r d = with_body r (post_support_create e) d"
  using assms by (simp add: requestHandler_def handleAPI_def Let_def)

lemma route_get_clients:
  assumes "httpMethod r = ''GET''" "url r = ''/api/clients''"
  shows "requestHandler e r d = get_clients e d"
  using assms by (simp add: requestHandler_def handleAPI_def Let_def)

lemma user_ticket_prefix_cases:
  assumes "prefix ''/api/user/ticket'' u"
  shows "prefix ''/api/'' u" "u \<noteq> ''/api/login''" "u \<noteq> ''/api/clients''" "u \<noteq> ''/api/programs''"
    "u \<noteq> ''/api/tickets''" "u \<noteq> ''/api/support/create''" "u \<noteq> ''/api/recipes''"
    "\<not> prefix ''/api/tickets/'' u" "\<not> prefix ''/api/recipes/'' u"
  using assms by (auto simp: prefix_def)

lemma route_user_ticket:
  assumes "httpMethod r = ''GET''" "prefix ''/api/user/ticket'' (url r)"
  shows "requestHandler e r d = get_user_ticket r d"
  using assms user_ticket_prefix_cases[OF assms(2)]
  by (simp add: requestHandler_def handleAPI_def Let_def)

lemma find_update_first:
  "List.find P xs = Some x \<Longrightarrow> P (f x) \<Longrightarrow> List.find P (update_first P f xs) = Some (f x)"
  by (induction xs) (auto split: if_splits)

lemma length_update_first: "length (update_first P f xs) = length xs"
  by (induction xs) auto

lemma find_Some_P: "List.find P xs = Some x \<Longrightarrow> P x"
  by (induction xs) (auto split: if_splits)

section \<open>Ticket status changes\<close>

lemma find_ticket_id: "find_ticket i ts = Some t \<Longrightarrow> Some (t_id t) = i"
  unfolding find_ticket_def by (drule find_Some_P) simp

lemma find_ticket_update:
  assumes "find_ticket i ts = Some t" "t_id (f t) = t_id t"
  shows "find_ticket i (update_first (\<lambda>t. Some (t_id t) = i) f ts) = Some (f t)"
  using assms find_ticket_id[OF assms(1)] unfolding find_ticket_def
  by (intro find_update_first) auto

lemma old_status_not_closed:
  "s \<noteq> JStr ''closed'' \<Longrightarrow> or_else (Some s) (JStr ''open'') \<noteq> JStr ''closed''"
  by (simp add: or_else_def)

text \<open>
  Claim C2. For a PUT request under /api/tickets/ whose id names a ticket of the store:
  with status "closed" on a ticket that is not closed, the ticket gets status "closed"
  and exactly one more message, from "admin", with the closing text; with status
  "closed" on a closed ticket, the ticket is left as it was; with status "open" on a
  closed ticket, the ticket gets status "open" and exactly one more message, from
  "admin", with the reopening text, which differs from the closing text.
\<close>

theorem put_ticket_status_messages:
  fixes e :: env
  assumes "httpMethod r = ''PUT''" and "prefix ''/api/tickets/'' (url r)"
    and "parseBody (body r) = Inr b"
    and "find_ticket (part (url r) 3) (tickets d) = Some t"
  defines "found \<equiv> find_ticket (part (url r) 3) (tickets (snd (requestHandler e r d)))"
  shows "(field b ''status'' = Some (JStr ''closed'') \<and> t_status t \<noteq> JStr ''closed'' \<longrightarrow>
            found = Some (t\<lparr> t_status := JStr ''closed'',
                              t_messages := t_messages t @
                                [\<lparr> m_sender = JStr ''admin'', m_time = clock e 0,
                                   m_text = Some (JStr closing_text), m_attachment = None \<rparr>] \<rparr>)) \<and>
         (field b ''status'' = Some (JStr ''closed'') \<and> t_status t = JStr ''closed'' \<longrightarrow>
            found = Some t) \<and>
         (field b ''status'' = Some (JStr ''open'') \<and> t_status t = JStr ''closed'' \<longrightarrow>
            found = Some (t\<lparr> t_status := JStr ''open'',
                              t_messages := t_messages t @
                                [\<lparr> m_sender = JStr ''admin'', m_time = clock e 0,
                                   m_text = Some (JStr reopening_text), m_attachment = None \<rparr>] \<rparr>)) \<and>
         closing_text \<noteq> reopening_text"
proof -
  have nn: "b \<noteq> JNull" if "field b ''status'' = Some s" for s
    using that by auto
  have upd: "found = Some (set_status e s t)" if "field b ''status'' = Some s" "truthy (Some s)" for s
    using that nn[OF that(1)] assms(3,4) unfolding found_def route_put_ticket[OF assms(1,2)]
    by (simp add: with_body_def put_ticket_def Let_def find_ticket_update set_status_def)
  have 1: "found = Some (t\<lparr> t_status := JStr ''closed'',
                              t_messages := t_messages t @
                                [\<lparr> m_sender = JStr ''admin'', m_time = clock e 0,
                                   m_text = Some (JStr closing_text), m_attachment = None \<rparr>] \<rparr>)"
    if "field b ''status'' = Some (JStr ''closed'')" "t_status t \<noteq> JStr ''closed''"
    using upd[OF that(1)] old_status_not_closed[OF that(2)]
    by (simp add: set_status_def Let_def admin_message_def)
  have 2: "found = Some t"
    if "field b ''status'' = Some (JStr ''closed'')" "t_status t = JStr ''closed''"
    using upd[OF that(1)] that(2)
    by (simp add: set_status_def Let_def or_else_def)
  have 3: "found = Some (t\<lparr> t_status := JStr ''open'',
                              t_messages := t_messages t @
                                [\<lparr> m_sender = JStr ''admin'', m_time = clock e 0,
                                   m_text = Some (JStr reopening_text), m_attachment = None \<rparr>] \<rparr>)"
    if "field b ''status'' = Some (JStr ''open'')" "t_status t = JStr ''closed''"
    using upd[OF that(1)] that(2)
    by (simp add: set_status_def Let_def or_else_def admin_message_def)
  have 4: "closing_text \<noteq> reopening_text"
    by (simp add: closing_text_def reopening_text_def)
  from 1 2 3 4 show ?thesis by blast
qed

text \<open>Closing the open ticket \<^verbatim>\<open>rs\<close> of the one-ticket store at clock reading 1000.\<close>

theorem put_ticket_status_messages_witness:
  "find_ticket (part ''/api/tickets/rs'' 3) (tickets db1) = Some ticket0 \<and>
   find_ticket (Some ''rs'') (tickets (snd (requestHandler env0
       (req ''PUT'' ''/api/tickets/rs'' (Data (JObj [(''status'', JStr ''closed'')]))) db1)))
     = Some (ticket0\<lparr> t_status := JStr ''closed'',
                       t_messages := [\<lparr> m_sender = JStr ''admin'', m_time = 1000,
                                         m_text = Some (JStr closing_text),
                                         m_attachment = None \<rparr>] \<rparr>)"
proof -
  have p: "part ''/api/tickets/rs'' 3 = Some ''rs''" by (simp add: part_def)
  have f: "find_ticket (part ''/api/tickets/rs'' 3) (tickets db1) = Some ticket0"
    by (simp add: p find_ticket_def db1_def ticket0_def)
  show ?thesis
    using put_ticket_status_messages [of "req ''PUT'' ''/api/tickets/rs'' (Data (JObj [(''status'', JStr ''closed'')]))"
        "JObj [(''status'', JStr ''closed'')]" db1 ticket0 env0] f
    by (simp add: req_def parseBody_def p ticket0_def env0_def)
qed

section \<open>Messages and new tickets\<close>

lemma truthy_not_null: "truthy (field b k) \<Longrightarrow> b \<noteq> JNull"
  by auto

lemma save_attachment_write_fails:
  "\<not> upload_ok e (upload_path e k n) \<Longrightarrow> save_attachment e k file (Some (JStr n)) = None"
  by (simp add: save_attachment_def upload_path_def Let_def split: option.splits json.splits)

text \<open>What POST /api/tickets/:id/message does once the request is accepted.\<close>

lemma post_message_accepted:
  fixes e :: env and r :: request and d :: db
  assumes "httpMethod r = ''POST''" and "prefix ''/api/tickets/'' (url r)"
    and "part (url r) 4 = Some ''message''" and "parseBody (body r) = Inr b"
    and "truthy (field b ''text'') \<or> truthy (field b ''file'')"
    and "find_ticket (part (url r) 3) (tickets d) = Some t"
  defines "m \<equiv> \<lparr> m_sender = or_else (field b ''sender'') (JStr ''client''), m_time = clock e 0,
                 m_text = (if truthy (field b ''text'') then field b ''text'' else None),
                 m_attachment = (if truthy (field b ''file'') \<and> truthy (field b ''fileName'')
                                 then save_attachment e 1 (field b ''file'') (field b ''fileName'')
                                 else None) \<rparr>"
  shows "fst (requestHandler e r d) = (200, Success True)"
    and "find_ticket (part (url r) 3) (tickets (snd (requestHandler e r d)))
          = Some (t\<lparr>t_messages := t_messages t @ [m]\<rparr>)"
proof -
  have nn: "b \<noteq> JNull" using assms(5) truthy_not_null by blast
  show "fst (requestHandler e r d) = (200, Success True)"
    using assms(4,5,6) nn unfolding route_post_message[OF assms(1,2,3)]
    by (auto simp add: with_body_def post_message_def Let_def)
  show "find_ticket (part (url r) 3) (tickets (snd (requestHandler e r d)))
          = Some (t\<lparr>t_messages := t_messages t @ [m]\<rparr>)"
    using assms(4,5,6) nn unfolding route_post_message[OF assms(1,2,3)] m_def
    by (auto simp add: with_body_def post_message_def Let_def find_ticket_update)
qed

lemma support_create_accepted:
  fixes e :: env and r :: request and d :: db
  assumes "httpMethod r = ''POST''" and "url r = ''/api/support/create''"
    and "parseBody (body r) = Inr b"
    and "truthy (field b ''email'')" and "truthy (field b ''password'')"
  defines "msgs \<equiv> (if truthy (field b ''message'') \<or> (truthy (field b ''file'') \<and> truthy (field b ''fileName''))
                    then [\<lparr> m_sender = JStr ''client'', m_time = clock e 2,
                         m_text = (if truthy (field b ''message'') then field b ''message'' else None),
                         m_attachment = (if truthy (field b ''file'') \<and> truthy (field b ''fileName'')
                                         then save_attachment e 3 (field b ''file'') (field b ''fileName'') else None) \<rparr>]
                    else [])"
  defines "t \<equiv> \<lparr> t_id = toString36 (clock e 0), t_email = value_of (field b ''email''),
                            t_password = value_of (field b ''password''), t_created = clock e 1,
                            t_status = JStr ''open'', t_messages = msgs \<rparr>"
  shows "requestHandler e r d = ((201, Ticket t), d\<lparr>tickets := tickets d @ [t]\<rparr>)"
proof -
  have nn: "b \<noteq> JNull" using assms(4) truthy_not_null by blast
  show ?thesis
    using assms(3,4,5) nn unfolding route_support_create[OF assms(1,2)] t_def msgs_def
    by (simp add: with_body_def post_support_create_def Let_def)
qed

lemma support_create_rejected:
  assumes "httpMethod r = ''POST''" and "url r = ''/api/support/create''"
    and "\<not> (\<exists>b. parseBody (body r) = Inr b \<and> truthy (field b ''email'') \<and> truthy (field b ''password''))"
  shows "fst (fst (requestHandler e r d)) = 400" "snd (requestHandler e r d) = d"
  using assms(3) unfolding route_support_create[OF assms(1,2)]
  by (auto simp add: with_body_def post_support_create_def Let_def split: sum.splits)

text \<open>
  Claim C10. A POST under /api/tickets/:id/message that is accepted (text or file given,
  the ticket exists) and whose body has no sender property appends a message whose
  sender is "client". Every ticket that POST /api/support/create answers with is the
  one it appended to the store, and each of its messages (there is at most the
  initial one) has sender "client".
\<close>

theorem default_sender_is_client:
  fixes e :: env and d :: db
  shows "(\<forall>r b t. httpMethod r = ''POST'' \<and> prefix ''/api/tickets/'' (url r) \<and>
            part (url r) 4 = Some ''message'' \<and> parseBody (body r) = Inr b \<and>
            (truthy (field b ''text'') \<or> truthy (field b ''file'')) \<and>
            field b ''sender'' = None \<and>
            find_ticket (part (url r) 3) (tickets d) = Some t \<longrightarrow>
            (\<exists>m. fst (requestHandler e r d) = (200, Success True) \<and>
                 find_ticket (part (url r) 3) (tickets (snd (requestHandler e r d)))
                   = Some (t\<lparr>t_messages := t_messages t @ [m]\<rparr>) \<and>
                 m_sender m = JStr ''client'')) \<and>
         (\<forall>r t. httpMethod r = ''POST'' \<and> url r = ''/api/support/create'' \<and>
            fst (requestHandler e r d) = (201, Ticket t) \<longrightarrow>
            tickets (snd (requestHandler e r d)) = tickets d @ [t] \<and>
            (\<forall>m \<in> set (t_messages t). m_sender m = JStr ''client''))"
proof (intro conjI allI impI)
  fix r :: request and b t
  assume a: "httpMethod r = ''POST'' \<and> prefix ''/api/tickets/'' (url r) \<and>
            part (url r) 4 = Some ''message'' \<and> parseBody (body r) = Inr b \<and>
            (truthy (field b ''text'') \<or> truthy (field b ''file'')) \<and>
            field b ''sender'' = None \<and>
            find_ticket (part (url r) 3) (tickets d) = Some t"
  let ?m = "\<lparr> m_sender = or_else (field b ''sender'') (JStr ''client''), m_time = clock e 0,
                 m_text = (if truthy (field b ''text'') then field b ''text'' else None),
                 m_attachment = (if truthy (field b ''file'') \<and> truthy (field b ''fileName'')
                                 then save_attachment e 1 (field b ''file'') (field b ''fileName'')
                                 else None) \<rparr>"
  from a have 1: "fst (requestHandler e r d) = (200, Success True)"
    and 2: "find_ticket (part (url r) 3) (tickets (snd (requestHandler e r d)))
          = Some (t\<lparr>t_messages := t_messages t @ [?m]\<rparr>)"
    using post_message_accepted[of r b d t e] by blast+
  have 3: "m_sender ?m = JStr ''client''"
    using a by (simp add: or_else_def)
  from 1 2 3 show "\<exists>m. fst (requestHandler e r d) = (200, Success True) \<and>
                 find_ticket (part (url r) 3) (tickets (snd (requestHandler e r d)))
                   = Some (t\<lparr>t_messages := t_messages t @ [m]\<rparr>) \<and>
                 m_sender m = JStr ''client''"
    by blast
next
  fix r :: request and t
  assume a: "httpMethod r = ''POST'' \<and> url r = ''/api/support/create'' \<and>
            fst (requestHandler e r d) = (201, Ticket t)"
  then have "\<exists>b. parseBody (body r) = Inr b \<and> truthy (field b ''email'') \<and> truthy (field b ''password'')"
    using support_create_rejected(1)[of r e d] by force
  then obtain b where b: "parseBody (body r) = Inr b" "truthy (field b ''email'')" "truthy (field b ''password'')"
    by blast
  from a have r: "httpMethod r = ''POST''" "url r = ''/api/support/create''" by simp_all
  note acc = support_create_accepted[OF r b, of e d]
  from a acc show "tickets (snd (requestHandler e r d)) = tickets d @ [t]"
    by simp
  from a acc show "\<forall>m \<in> set (t_messages t). m_sender m = JStr ''client''"
    by (auto split: if_splits)
qed

text \<open>The pieces of the URL used in the examples.\<close>

lemma part_msg: "part ''/api/tickets/rs/message'' 3 = Some ''rs''" "part ''/api/tickets/rs/message'' 4 = Some ''message''"
  by (simp_all add: part_def)

lemma find_db1: "find_ticket (Some ''rs'') (tickets db1) = Some ticket0"
  by (simp add: find_ticket_def db1_def ticket0_def)

text \<open>A text message on the ticket \<^verbatim>\<open>rs\<close>, and a ticket opened with a first message.\<close>

theorem default_sender_is_client_witness:
  "find_ticket (Some ''rs'') (tickets (snd (requestHandler env0
       (req ''POST'' ''/api/tickets/rs/message'' (Data (JObj [(''text'', JStr ''hello'')]))) db1)))
     = Some (ticket0\<lparr>t_messages := [\<lparr> m_sender = JStr ''client'', m_time = 1000,
                                         m_text = Some (JStr ''hello''), m_attachment = None \<rparr>]\<rparr>) \<and>
   fst (requestHandler env0 (req ''POST'' ''/api/support/create''
       (Data (JObj [(''email'', JStr ''ann@example.org''), (''password'', JStr ''pw''),
                    (''message'', JStr ''hello'')]))) initDB)
     = (201, Ticket (ticket0\<lparr>t_messages := [\<lparr> m_sender = JStr ''client'', m_time = 1002,
                                         m_text = Some (JStr ''hello''), m_attachment = None \<rparr>]\<rparr>))"
proof -
  let ?r = "req ''POST'' ''/api/tickets/rs/message'' (Data (JObj [(''text'', JStr ''hello'')]))"
  let ?c = "req ''POST'' ''/api/support/create''
       (Data (JObj [(''email'', JStr ''ann@example.org''), (''password'', JStr ''pw''),
                    (''message'', JStr ''hello'')]))"
  let ?t = "ticket0\<lparr>t_messages := [\<lparr> m_sender = JStr ''client'', m_time = 1002,
                                         m_text = Some (JStr ''hello''), m_attachment = None \<rparr>]\<rparr>"
  have ident: "toString36 (clock env0 0) = ''rs''" by code_simp
  have c: "fst (requestHandler env0 ?c initDB) = (201, Ticket ?t)"
    using ident
    by (simp add: route_defs post_support_create_def ticket0_def env0_def initDB_def)
  have "\<exists>m. find_ticket (part (url ?r) 3) (tickets (snd (requestHandler env0 ?r db1)))
                   = Some (ticket0\<lparr>t_messages := t_messages ticket0 @ [m]\<rparr>) \<and> m_sender m = JStr ''client''"
    using default_sender_is_client [where e = env0 and d = db1, THEN conjunct1, rule_format,
        of ?r "JObj [(''text'', JStr ''hello'')]" ticket0] find_db1 part_msg
    by (simp add: req_def parseBody_def)
  moreover have "\<forall>m \<in> set (t_messages ?t). m_sender m = JStr ''client''"
    using default_sender_is_client [where e = env0 and d = initDB, THEN conjunct2, rule_format, of ?c ?t] c
    by (simp add: req_def)
  ultimately show ?thesis
    using c find_db1 part_msg
    by (simp add: route_defs post_message_def db1_def ticket0_def env0_def find_ticket_def or_else_def)
qed

section \<open>Attachments that cannot be written\<close>

text \<open>
  Claim C8. When the write of the attachment to its path under the uploads directory
  fails, a request that carries a file and a fileName is still served: POST
  /api/support/create (email and password given) answers 201 with the ticket and
  stores it, its one message having no attachment; POST /api/tickets/:id/message on
  an existing ticket answers 200 with success and appends one message with no
  attachment.
\<close>

theorem attachment_write_failure_is_not_fatal:
  fixes e :: env and d :: db
  shows "(\<forall>r b n. httpMethod r = ''POST'' \<and> url r = ''/api/support/create'' \<and>
            parseBody (body r) = Inr b \<and>
            truthy (field b ''email'') \<and> truthy (field b ''password'') \<and>
            truthy (field b ''file'') \<and> field b ''fileName'' = Some (JStr n) \<and> n \<noteq> [] \<and>
            \<not> upload_ok e (upload_path e 3 n) \<longrightarrow>
            (\<exists>t m. requestHandler e r d = ((201, Ticket t), d\<lparr>tickets := tickets d @ [t]\<rparr>) \<and>
                   t_messages t = [m] \<and> m_attachment m = None)) \<and>
         (\<forall>r b n t. httpMethod r = ''POST'' \<and> prefix ''/api/tickets/'' (url r) \<and>
            part (url r) 4 = Some ''message'' \<and> parseBody (body r) = Inr b \<and>
            truthy (field b ''file'') \<and> field b ''fileName'' = Some (JStr n) \<and> n \<noteq> [] \<and>
            \<not> upload_ok e (upload_path e 1 n) \<and>
            find_ticket (part (url r) 3) (tickets d) = Some t \<longrightarrow>
            (\<exists>m. fst (requestHandler e r d) = (200, Success True) \<and>
                 find_ticket (part (url r) 3) (tickets (snd (requestHandler e r d)))
                   = Some (t\<lparr>t_messages := t_messages t @ [m]\<rparr>) \<and>
                 m_attachment m = None))"
proof (intro conjI allI impI)
  fix r :: request and b n
  assume a: "httpMethod r = ''POST'' \<and> url r = ''/api/support/create'' \<and>
            parseBody (body r) = Inr b \<and>
            truthy (field b ''email'') \<and> truthy (field b ''password'') \<and>
            truthy (field b ''file'') \<and> field b ''fileName'' = Some (JStr n) \<and> n \<noteq> [] \<and>
            \<not> upload_ok e (upload_path e 3 n)"
  then have "save_attachment e 3 (field b ''file'') (field b ''fileName'') = None"
    by (simp add: save_attachment_write_fails)
  with a show "\<exists>t m. requestHandler e r d = ((201, Ticket t), d\<lparr>tickets := tickets d @ [t]\<rparr>) \<and>
                   t_messages t = [m] \<and> m_attachment m = None"
    using support_create_accepted[of r b e d] by simp
next
  fix r :: request and b n t
  assume a: "httpMethod r = ''POST'' \<and> prefix ''/api/tickets/'' (url r) \<and>
            part (url r) 4 = Some ''message'' \<and> parseBody (body r) = Inr b \<and>
            truthy (field b ''file'') \<and> field b ''fileName'' = Some (JStr n) \<and> n \<noteq> [] \<and>
            \<not> upload_ok e (upload_path e 1 n) \<and>
            find_ticket (part (url r) 3) (tickets d) = Some t"
  let ?m = "\<lparr> m_sender = or_else (field b ''sender'') (JStr ''client''), m_time = clock e 0,
                 m_text = (if truthy (field b ''text'') then field b ''text'' else None),
                 m_attachment = (if truthy (field b ''file'') \<and> truthy (field b ''fileName'')
                                 then save_attachment e 1 (field b ''file'') (field b ''fileName'')
                                 else None) \<rparr>"
  from a have 1: "fst (requestHandler e r d) = (200, Success True)"
    and 2: "find_ticket (part (url r) 3) (tickets (snd (requestHandler e r d)))
          = Some (t\<lparr>t_messages := t_messages t @ [?m]\<rparr>)"
    using post_message_accepted[of r b d t e] by blast+
  from a have "save_attachment e 1 (field b ''file'') (field b ''fileName'') = None"
    by (simp add: save_attachment_write_fails)
  then have 3: "m_attachment ?m = None"
    by simp
  from 1 2 3 show "\<exists>m. fst (requestHandler e r d) = (200, Success True) \<and>
                 find_ticket (part (url r) 3) (tickets (snd (requestHandler e r d)))
                   = Some (t\<lparr>t_messages := t_messages t @ [m]\<rparr>) \<and>
                 m_attachment m = None"
    by blast
qed

text \<open>The example environments.\<close>

lemma env_no_uploads_clock: "clock env_no_uploads k = 1000 + int k"
  by (simp add: env_no_uploads_def env0_def)

lemma env0_clock: "clock env0 k = 1000 + int k"
  by (simp add: env0_def)

lemma ident_1001: "toString36 1001 = ''rt''"
  by code_simp

lemma ident_1003: "toString36 1003 = ''rv''"
  by code_simp

lemma env_no_uploads_paths:
  "upload_path env_no_uploads 1 ''a.txt'' = ''/srv/app/public/uploads/rt_a.txt''"
  "upload_path env_no_uploads 3 ''a.txt'' = ''/srv/app/public/uploads/rv_a.txt''"
  "upload_path env_no_uploads 1 ''note.txt'' = ''/srv/app/public/uploads/rt_note.txt''"
  by (simp_all add: upload_path_def env_no_uploads_clock ident_1001 ident_1003 safe_char_def
      UPLOAD_DIR_def PUBLIC_DIR_def path_join_def normalize_def env_no_uploads_def env0_def)

lemma env_no_uploads_refuses:
  "\<not> upload_ok env_no_uploads (upload_path env_no_uploads 1 ''a.txt'')"
  "\<not> upload_ok env_no_uploads (upload_path env_no_uploads 3 ''a.txt'')"
  "\<not> upload_ok env_no_uploads (upload_path env_no_uploads 1 ''note.txt'')"
  unfolding env_no_uploads_paths by (simp_all add: env_no_uploads_def)

text \<open>
  Both routes where nothing can be written under the uploads directory: the paths of
  the attachments, and the answers.
\<close>

theorem attachment_write_failure_is_not_fatal_witness:
  "upload_path env_no_uploads 1 ''a.txt'' = ''/srv/app/public/uploads/rt_a.txt'' \<and>
   \<not> upload_ok env_no_uploads (upload_path env_no_uploads 1 ''a.txt'') \<and>
   \<not> upload_ok env_no_uploads (upload_path env_no_uploads 3 ''a.txt'') \<and>
   fst (requestHandler env_no_uploads (req ''POST'' ''/api/tickets/rs/message''
       (Data (JObj [(''text'', JStr ''see file''), (''file'', JStr ''aGk=''), (''fileName'', JStr ''a.txt'')]))) db1)
     = (200, Success True) \<and>
   find_ticket (Some ''rs'') (tickets (snd (requestHandler env_no_uploads (req ''POST'' ''/api/tickets/rs/message''
       (Data (JObj [(''text'', JStr ''see file''), (''file'', JStr ''aGk=''), (''fileName'', JStr ''a.txt'')]))) db1)))
     = Some (ticket0\<lparr>t_messages := [\<lparr> m_sender = JStr ''client'', m_time = 1000,
                                         m_text = Some (JStr ''see file''), m_attachment = None \<rparr>]\<rparr>) \<and>
   requestHandler env_no_uploads (req ''POST'' ''/api/support/create''
       (Data (JObj [(''email'', JStr ''ann@example.org''), (''password'', JStr ''pw''),
                    (''file'', JStr ''aGk=''), (''fileName'', JStr ''a.txt'')]))) initDB
     = ((201, Ticket (ticket0\<lparr>t_messages := [\<lparr> m_sender = JStr ''client'', m_time = 1002,
                                         m_text = None, m_attachment = None \<rparr>]\<rparr>)),
        initDB\<lparr>tickets := [ticket0\<lparr>t_messages := [\<lparr> m_sender = JStr ''client'', m_time = 1002,
                                         m_text = None, m_attachment = None \<rparr>]\<rparr>]\<rparr>)"
proof -
  let ?b = "JObj [(''text'', JStr ''see file''), (''file'', JStr ''aGk=''), (''fileName'', JStr ''a.txt'')]"
  let ?r = "req ''POST'' ''/api/tickets/rs/message'' (Data ?b)"
  let ?cb = "JObj [(''email'', JStr ''ann@example.org''), (''password'', JStr ''pw''),
                    (''file'', JStr ''aGk=''), (''fileName'', JStr ''a.txt'')]"
  let ?c = "req ''POST'' ''/api/support/create'' (Data ?cb)"
  have ident: "toString36 (clock env_no_uploads 0) = ''rs''" by code_simp
  note main = attachment_write_failure_is_not_fatal [where e = env_no_uploads]
  have m: "\<exists>m. fst (requestHandler env_no_uploads ?r db1) = (200, Success True) \<and>
            find_ticket (part (url ?r) 3) (tickets (snd (requestHandler env_no_uploads ?r db1)))
              = Some (ticket0\<lparr>t_messages := t_messages ticket0 @ [m]\<rparr>) \<and> m_attachment m = None"
    using main [where d = db1, THEN conjunct2, rule_format, of ?r ?b "''a.txt''" ticket0]
      find_db1 part_msg env_no_uploads_refuses
    by (simp add: req_def parseBody_def)
  have c: "\<exists>t m. requestHandler env_no_uploads ?c initDB = ((201, Ticket t), initDB\<lparr>tickets := tickets initDB @ [t]\<rparr>) \<and>
                   t_messages t = [m] \<and> m_attachment m = None"
    using main [where d = initDB, THEN conjunct1, rule_format, of ?c ?cb "''a.txt''"]
      env_no_uploads_refuses
    by (simp add: req_def parseBody_def)
  have sa: "save_attachment env_no_uploads 1 f (Some (JStr ''a.txt'')) = None"
    "save_attachment env_no_uploads 3 f (Some (JStr ''a.txt'')) = None" for f
    by (rule save_attachment_write_fails[OF env_no_uploads_refuses(1)])
       (rule save_attachment_write_fails[OF env_no_uploads_refuses(2)])
  show ?thesis
    using m c ident find_db1 part_msg env_no_uploads_refuses
    by (simp add: route_defs post_message_def post_support_create_def sa db1_def ticket0_def
        env_no_uploads_clock env_no_uploads_paths initDB_def find_ticket_def or_else_def
        del: One_nat_def)
qed

section \<open>What a stored message contains\<close>

text \<open>
  Against claim C4 as stated: a request with a file and a fileName but no text, when
  the write of the attachment fails, is answered with success and appends a message
  that has neither text nor attachment.
\<close>

theorem message_without_text_or_attachment:
  "fst (requestHandler env_no_uploads (req ''POST'' ''/api/tickets/rs/message''
       (Data (JObj [(''file'', JStr ''aGVsbG8=''), (''fileName'', JStr ''note.txt'')]))) db1)
     = (200, Success True) \<and>
   tickets (snd (requestHandler env_no_uploads (req ''POST'' ''/api/tickets/rs/message''
       (Data (JObj [(''file'', JStr ''aGVsbG8=''), (''fileName'', JStr ''note.txt'')]))) db1))
     = [ticket0\<lparr>t_messages := [\<lparr> m_sender = JStr ''client'', m_time = 1000,
                                    m_text = None, m_attachment = None \<rparr>]\<rparr>]"
proof -
  have sa: "save_attachment env_no_uploads 1 f (Some (JStr ''note.txt'')) = None" for f
    by (rule save_attachment_write_fails[OF env_no_uploads_refuses(3)])
  show ?thesis using part_msg
    by (simp add: route_defs post_message_def sa db1_def ticket0_def
        env_no_uploads_clock initDB_def find_ticket_def or_else_def del: One_nat_def)
qed

text \<open>
  Claim C4, amended. A POST under /api/tickets/:id/message whose body gives neither a
  truthy text nor a truthy file is answered 400 and leaves the store as it was. When
  the ticket exists and the body gives a text, or a file with a fileName whose
  attachment is stored, the request is answered with success and the one message it
  appends has a text or an attachment.
\<close>

theorem message_needs_text_or_file:
  fixes e :: env and d :: db and r :: request
  assumes "httpMethod r = ''POST''" and "prefix ''/api/tickets/'' (url r)"
    and "part (url r) 4 = Some ''message''" and "parseBody (body r) = Inr b"
  shows "(\<not> truthy (field b ''text'') \<and> \<not> truthy (field b ''file'') \<longrightarrow>
            fst (fst (requestHandler e r d)) = 400 \<and> snd (requestHandler e r d) = d) \<and>
         (\<forall>t. find_ticket (part (url r) 3) (tickets d) = Some t \<and>
              (truthy (field b ''text'') \<or>
               truthy (field b ''file'') \<and> truthy (field b ''fileName'') \<and>
               save_attachment e 1 (field b ''file'') (field b ''fileName'') \<noteq> None) \<longrightarrow>
              (\<exists>m. fst (requestHandler e r d) = (200, Success True) \<and>
                   find_ticket (part (url r) 3) (tickets (snd (requestHandler e r d)))
                     = Some (t\<lparr>t_messages := t_messages t @ [m]\<rparr>) \<and>
                   (m_text m \<noteq> None \<or> m_attachment m \<noteq> None)))"
proof (intro conjI allI impI)
  assume "\<not> truthy (field b ''text'') \<and> \<not> truthy (field b ''file'')"
  then show "fst (fst (requestHandler e r d)) = 400" "snd (requestHandler e r d) = d"
    using assms(4) unfolding route_post_message[OF assms(1,2,3)]
    by (simp_all add: with_body_def post_message_def Let_def)
next
  fix t
  assume a: "find_ticket (part (url r) 3) (tickets d) = Some t \<and>
              (truthy (field b ''text'') \<or>
               truthy (field b ''file'') \<and> truthy (field b ''fileName'') \<and>
               save_attachment e 1 (field b ''file'') (field b ''fileName'') \<noteq> None)"
  let ?m = "\<lparr> m_sender = or_else (field b ''sender'') (JStr ''client''), m_time = clock e 0,
                 m_text = (if truthy (field b ''text'') then field b ''text'' else None),
                 m_attachment = (if truthy (field b ''file'') \<and> truthy (field b ''fileName'')
                                 then save_attachment e 1 (field b ''file'') (field b ''fileName'')
                                 else None) \<rparr>"
  from a have tf: "truthy (field b ''text'') \<or> truthy (field b ''file'')" by blast
  from a have f: "find_ticket (part (url r) 3) (tickets d) = Some t" by blast
  have 1: "fst (requestHandler e r d) = (200, Success True)"
    and 2: "find_ticket (part (url r) 3) (tickets (snd (requestHandler e r d)))
          = Some (t\<lparr>t_messages := t_messages t @ [?m]\<rparr>)"
    using post_message_accepted[OF assms tf f, of e] by blast+
  have "truthy x \<Longrightarrow> x \<noteq> None" for x by (cases x) auto
  with a have 3: "m_text ?m \<noteq> None \<or> m_attachment ?m \<noteq> None"
    by auto
  from 1 2 3 show "\<exists>m. fst (requestHandler e r d) = (200, Success True) \<and>
                   find_ticket (part (url r) 3) (tickets (snd (requestHandler e r d)))
                     = Some (t\<lparr>t_messages := t_messages t @ [m]\<rparr>) \<and>
                   (m_text m \<noteq> None \<or> m_attachment m \<noteq> None)"
    by blast
qed

text \<open>A body with a sender only, and a body with a file that is stored.\<close>

theorem message_needs_text_or_file_witness:
  "requestHandler env0 (req ''POST'' ''/api/tickets/rs/message'' (Data (JObj [(''sender'', JStr ''admin'')]))) db1
     = ((400, Error ''text or file required''), db1) \<and>
   find_ticket (Some ''rs'') (tickets (snd (requestHandler env0 (req ''POST'' ''/api/tickets/rs/message''
       (Data (JObj [(''file'', JStr ''aGk=''), (''fileName'', JStr ''a b.txt'')]))) db1)))
     = Some (ticket0\<lparr>t_messages := [\<lparr> m_sender = JStr ''client'', m_time = 1000,
                                         m_text = None, m_attachment = Some ''/uploads/rt_ab.txt'' \<rparr>]\<rparr>)"
proof -
  let ?bz = "JObj [(''sender'', JStr ''admin'')]"
  let ?rz = "req ''POST'' ''/api/tickets/rs/message'' (Data ?bz)"
  let ?b = "JObj [(''file'', JStr ''aGk=''), (''fileName'', JStr ''a b.txt'')]"
  let ?r = "req ''POST'' ''/api/tickets/rs/message'' (Data ?b)"
  have ident: "toString36 (clock env0 1) = ''rt''" by code_simp
  have sa: "save_attachment env0 1 (field ?b ''file'') (field ?b ''fileName'') = Some ''/uploads/rt_ab.txt''"
    using ident by (simp add: save_attachment_def safe_char_def env0_def)
  have 0: "fst (fst (requestHandler env0 ?rz db1)) = 400 \<and> snd (requestHandler env0 ?rz db1) = db1"
    using message_needs_text_or_file [where e = env0 and d = db1 and r = ?rz and b = ?bz, THEN conjunct1] part_msg
    by (simp add: req_def parseBody_def)
  have 1: "\<exists>m. fst (requestHandler env0 ?r db1) = (200, Success True) \<and>
                   find_ticket (part (url ?r) 3) (tickets (snd (requestHandler env0 ?r db1)))
                     = Some (ticket0\<lparr>t_messages := t_messages ticket0 @ [m]\<rparr>) \<and>
                   (m_text m \<noteq> None \<or> m_attachment m \<noteq> None)"
    using message_needs_text_or_file [where e = env0 and d = db1 and r = ?r and b = ?b, THEN conjunct2, rule_format, of ticket0]
      part_msg find_db1 sa
    by (simp add: req_def parseBody_def)
  show ?thesis
    using 0 1 sa part_msg
    by (simp add: route_defs post_message_def db1_def ticket0_def
        env0_clock initDB_def find_ticket_def or_else_def)
qed

section \<open>Looking a ticket up by its credentials\<close>


lemma hd_sort_key_least:
  assumes "xs \<noteq> []"
  shows "hd (sort_key f xs) \<in> set xs" and "\<forall>u \<in> set xs. f (hd (sort_key f xs)) \<le> f u"
proof -
  obtain y ys where ys: "sort_key f xs = y # ys"
    using assms by (cases "sort_key f xs") (auto dest: arg_cong[where f = length])
  have s: "set (y # ys) = set xs" using ys set_sort[of f xs] by simp
  have o: "sorted (map f (y # ys))" using ys sorted_sort_key[of f xs] by simp
  show "hd (sort_key f xs) \<in> set xs" using ys s by auto
  show "\<forall>u \<in> set xs. f (hd (sort_key f xs)) \<le> f u"
    using ys s o by auto
qed

text \<open>
  Against claim C3 as stated: with an empty email parameter no ticket of the store
  matches, and the answer is 400, not 404.
\<close>

theorem lookup_without_email_is_rejected:
  "filter (\<lambda>t. t_email t = JStr [] \<and> t_password t = JStr ''pw'') (tickets db1) = [] \<and>
   requestHandler env0 (lookup [] ''pw'') db1 = ((400, Error ''email and password required''), db1)"
  by (simp add: route_defs lookup_def get_user_ticket_def db1_def ticket0_def)

text \<open>
  Claim C3, amended. GET /api/user/ticket leaves the store unchanged in every case. A
  query in which the email or the password is missing or empty is answered 400 "email
  and password required". For a non-empty email and a non-empty password: when no
  ticket has both fields equal to the parameters the answer is 404 "no tickets found";
  otherwise it is 200 with one of the matching tickets, and no matching ticket was
  created later than that one.
\<close>

theorem latest_ticket_by_credentials:
  fixes e :: env and d :: db and r :: request
  assumes "httpMethod r = ''GET''" and "prefix ''/api/user/ticket'' (url r)"
  shows "snd (requestHandler e r d) = d \<and>
         (missing (searchParams r ''email'') \<or> missing (searchParams r ''password'') \<longrightarrow>
            fst (requestHandler e r d) = (400, Error ''email and password required'')) \<and>
         (\<forall>email password.
            searchParams r ''email'' = Some email \<and> searchParams r ''password'' = Some password \<and>
            email \<noteq> [] \<and> password \<noteq> [] \<longrightarrow>
            (let matching = filter (\<lambda>t. t_email t = JStr email \<and> t_password t = JStr password)
                              (tickets d)
             in (matching = [] \<longrightarrow>
                   fst (requestHandler e r d) = (404, Error ''no tickets found'')) \<and>
                (matching \<noteq> [] \<longrightarrow>
                   (\<exists>t. fst (requestHandler e r d) = (200, Ticket t) \<and> t \<in> set matching \<and>
                        (\<forall>u \<in> set matching. t_created u \<le> t_created t)))))"
proof (intro conjI allI impI)
  show "snd (requestHandler e r d) = d"
    unfolding route_user_ticket[OF assms] by (simp add: get_user_ticket_def Let_def)
next
  assume "missing (searchParams r ''email'') \<or> missing (searchParams r ''password'')"
  then show "fst (requestHandler e r d) = (400, Error ''email and password required'')"
    unfolding route_user_ticket[OF assms] by (simp add: get_user_ticket_def Let_def)
next
  fix email password
  assume q: "searchParams r ''email'' = Some email \<and> searchParams r ''password'' = Some password \<and>
            email \<noteq> [] \<and> password \<noteq> []"
  define matching where
    "matching = filter (\<lambda>t. t_email t = JStr email \<and> t_password t = JStr password) (tickets d)"
  have h: "requestHandler e r d =
      (if matching = [] then ((404, Error ''no tickets found''), d)
       else ((200, Ticket (hd (sort_key (\<lambda>t. - t_created t) matching))), d))"
    using q unfolding route_user_ticket[OF assms] matching_def
    by (simp add: get_user_ticket_def Let_def)
  have "(matching = [] \<longrightarrow> fst (requestHandler e r d) = (404, Error ''no tickets found'')) \<and>
        (matching \<noteq> [] \<longrightarrow>
           (\<exists>t. fst (requestHandler e r d) = (200, Ticket t) \<and> t \<in> set matching \<and>
                (\<forall>u \<in> set matching. t_created u \<le> t_created t)))"
  proof (cases "matching = []")
    case True
    with h show ?thesis by simp
  next
    case False
    from hd_sort_key_least[OF False, of "\<lambda>t. - t_created t"] False h
    show ?thesis by auto
  qed
  then show "let matching = filter (\<lambda>t. t_email t = JStr email \<and> t_password t = JStr password)
                              (tickets d)
             in (matching = [] \<longrightarrow>
                   fst (requestHandler e r d) = (404, Error ''no tickets found'')) \<and>
                (matching \<noteq> [] \<longrightarrow>
                   (\<exists>t. fst (requestHandler e r d) = (200, Ticket t) \<and> t \<in> set matching \<and>
                        (\<forall>u \<in> set matching. t_created u \<le> t_created t)))"
    unfolding matching_def Let_def .
qed

text \<open>
  Two tickets with the same credentials: the later one is returned. Credentials that
  no ticket has, and a query with an empty password.
\<close>

theorem latest_ticket_by_credentials_witness:
  "requestHandler env0 (lookup ''ann@example.org'' ''pw'') db2 = ((200, Ticket ticket1), db2) \<and>
   requestHandler env0 (lookup ''bob@example.org'' ''pw'') db2 = ((404, Error ''no tickets found''), db2) \<and>
   requestHandler env0 (lookup ''ann@example.org'' []) db2
     = ((400, Error ''email and password required''), db2)"
proof -
  have m: "filter (\<lambda>t. t_email t = JStr ''ann@example.org'' \<and> t_password t = JStr ''pw'') (tickets db2)
             = [ticket0, ticket1]"
    by (simp add: db2_def ticket0_def ticket1_def)
  have n: "filter (\<lambda>t. t_email t = JStr ''bob@example.org'' \<and> t_password t = JStr ''pw'') (tickets db2) = []"
    by (simp add: db2_def ticket0_def ticket1_def)
  have c: "t_created ticket0 = 1001" "t_created ticket1 = 2001"
    by (simp_all add: ticket0_def ticket1_def)
  have ra: "httpMethod (lookup x y) = ''GET''" "prefix ''/api/user/ticket'' (url (lookup x y))"
    "searchParams (lookup x y) ''email'' = Some x" "searchParams (lookup x y) ''password'' = Some y" for x y
    by (simp_all add: lookup_def)
  note main = latest_ticket_by_credentials [where e = env0 and d = db2, OF ra(1,2)]
  have "let matching = filter (\<lambda>t. t_email t = JStr ''ann@example.org'' \<and> t_password t = JStr ''pw'')
                         (tickets db2)
        in (matching = [] \<longrightarrow>
              fst (requestHandler env0 (lookup ''ann@example.org'' ''pw'') db2)
                = (404, Error ''no tickets found'')) \<and>
           (matching \<noteq> [] \<longrightarrow>
              (\<exists>t. fst (requestHandler env0 (lookup ''ann@example.org'' ''pw'') db2) = (200, Ticket t) \<and>
                   t \<in> set matching \<and> (\<forall>u \<in> set matching. t_created u \<le> t_created t)))"
    by (rule main[THEN conjunct2, THEN conjunct2, rule_format]) (simp add: ra)
  then have "\<exists>t. fst (requestHandler env0 (lookup ''ann@example.org'' ''pw'') db2) = (200, Ticket t) \<and>
          t \<in> {ticket0, ticket1} \<and> t_created ticket0 \<le> t_created t \<and> t_created ticket1 \<le> t_created t"
    unfolding Let_def m by simp
  moreover have s: "snd (requestHandler env0 (lookup x y) db2) = db2" for x y
    by (rule main[THEN conjunct1])
  ultimately have a': "requestHandler env0 (lookup ''ann@example.org'' ''pw'') db2 = ((200, Ticket ticket1), db2)"
    using c by (auto simp: prod_eq_iff)
  have "let matching = filter (\<lambda>t. t_email t = JStr ''bob@example.org'' \<and> t_password t = JStr ''pw'')
                         (tickets db2)
        in (matching = [] \<longrightarrow>
              fst (requestHandler env0 (lookup ''bob@example.org'' ''pw'') db2)
                = (404, Error ''no tickets found'')) \<and>
           (matching \<noteq> [] \<longrightarrow>
              (\<exists>t. fst (requestHandler env0 (lookup ''bob@example.org'' ''pw'') db2) = (200, Ticket t) \<and>
                   t \<in> set matching \<and> (\<forall>u \<in> set matching. t_created u \<le> t_created t)))"
    by (rule main[THEN conjunct2, THEN conjunct2, rule_format]) (simp add: ra)
  then have "fst (requestHandler env0 (lookup ''bob@example.org'' ''pw'') db2)
                = (404, Error ''no tickets found'')"
    unfolding Let_def n by simp
  with s have b: "requestHandler env0 (lookup ''bob@example.org'' ''pw'') db2 = ((404, Error ''no tickets found''), db2)"
    by (simp add: prod_eq_iff)
  have "fst (requestHandler env0 (lookup ''ann@example.org'' []) db2)
          = (400, Error ''email and password required'')"
    by (rule main[THEN conjunct2, THEN conjunct1, rule_format]) (simp add: ra)
  with s have z: "requestHandler env0 (lookup ''ann@example.org'' []) db2
     = ((400, Error ''email and password required''), db2)"
    by (simp add: prod_eq_iff)
  from a' b z show ?thesis by simp
qed

section \<open>Days left and expiry of clients\<close>

text \<open>
  One client of the \<^verbatim>\<open>forEach\<close>, when the date arithmetic gives a time value, when it
  gives \<^verbatim>\<open>NaN\<close>, and when the start date or the duration is missing.
\<close>

lemma refresh_client_dated:
  fixes e :: env and now :: int
  assumes "truthy (Some (c_startDate c))"
    and "truthy (Some (c_duration c))"
    and "end_of_period e c = Some endMs"
  defines "days \<equiv> \<lceil>real_of_int (endMs - now) / 86400000\<rceil>"
  shows "refresh_client e now c =
      (if c_active c \<and> days \<le> 0
       then (c\<lparr>c_daysLeft := Some (JNum (max 0 days)), c_active := False\<rparr>, True)
       else (c\<lparr>c_daysLeft := Some (JNum (max 0 days))\<rparr>, False))"
proof -
  have d: "\<lceil>real_of_int (endMs - now) / (1000 * 3600 * 24)\<rceil> = days"
    unfolding days_def by simp
  show ?thesis
    apply (simp only: refresh_client_def Let_def assms(1,2,3) if_True simp_thms option.case)
    apply (simp only: d)
    apply (simp add: max_def)
    done
qed

lemma refresh_client_NaN:
  assumes "truthy (Some (c_startDate c))" and "truthy (Some (c_duration c))"
    and "end_of_period e c = None"
  shows "refresh_client e now c = (c\<lparr>c_daysLeft := Some (JNum 0)\<rparr>, False)"
  using assms by (simp add: refresh_client_def)

lemma refresh_client_undated:
  assumes "\<not> (truthy (Some (c_startDate c)) \<and> truthy (Some (c_duration c)))"
  shows "refresh_client e now c = (c\<lparr>c_daysLeft := Some JNull\<rparr>, False)"
  using assms by (auto simp add: refresh_client_def)

lemma get_clients_response:
  "fst (get_clients e d) = (200, Clients (map (\<lambda>c. fst (refresh_client e (clock e 0) c)) (clients d)))"
  by (simp add: get_clients_def Let_def comp_def)

lemma get_clients_saved:
  assumes "i < length (clients d)" and "snd (refresh_client e (clock e 0) (clients d ! i))"
  shows "clients (snd (get_clients e d)) = map (\<lambda>c. fst (refresh_client e (clock e 0) c)) (clients d)"
proof -
  have "list_ex snd (map (refresh_client e (clock e 0)) (clients d))"
    unfolding list_ex_iff using assms by (auto intro!: bexI[of _ "clients d ! i"])
  then show ?thesis by (simp add: get_clients_def Let_def comp_def)
qed

text \<open>The calendar of the examples: one month after 15 January and after 1 December.\<close>

lemma civil_examples:
  "civil 19737 = (2024, 0, 15)" "civil 19692 = (2023, 11, 1)"
  by code_simp+

lemma MakeDay_examples:
  "MakeDay 2024 1 15 = 19768" "MakeDay 2023 12 1 = 19723"
  by code_simp+

text \<open>
  As \<^verbatim>\<open>setMonth\<close> does, \<open>MakeDay\<close> runs over into the next month where the month has
  no such day: one month after 31 January 2024 is 2 March 2024.
\<close>

lemma month_overflow_example:
  "civil 19753 = (2024, 0, 31)" "MakeDay 2024 1 31 = 19784" "civil 19784 = (2024, 2, 2)"
  by code_simp+

lemma env_feb_fields:
  "clock env_feb k = 1707566400000"
  "local_tza env_feb t u = 0"
  "parse_date env_feb (JStr ''2024-01-15'') = Some 1705276800000"
  "parse_date env_feb (JStr ''2023-12-01'') = Some 1701388800000"
  "parse_date env_feb (JStr ''soon'') = None"
  "parse_int env_feb (JNum n) = Some n"
  by (simp_all add: env_feb_def env0_def)

lemma day_examples:
  "(1705276800000 :: int) div msPerDay = 19737" "(1705276800000 :: int) mod msPerDay = 0"
  "(1701388800000 :: int) div msPerDay = 19692" "(1701388800000 :: int) mod msPerDay = 0"
  by (simp_all add: msPerDay_def)

lemma end_of_period_examples:
  "end_of_period env_feb ann = Some 1707955200000"
  "end_of_period env_feb bob = Some 1704067200000"
  "end_of_period env_feb carl = None"
  by (simp_all add: end_of_period_def setMonth_def getMonth_def env_feb_fields day_examples
      civil_examples MakeDay_examples TimeClip_def ann_def bob_def carl_def)
     (simp_all add: msPerDay_def)

text \<open>
  Against claim C1 as stated: Carl has a start date and a duration and is active. His
  start date is no date, so the difference to now is \<^verbatim>\<open>NaN\<close>: his daysLeft is set to 0,
  yet he stays active and the store is not written.
\<close>

theorem undated_client_stays_active:
  "truthy (Some (c_startDate carl)) \<and> truthy (Some (c_duration carl)) \<and> c_active carl \<and>
   requestHandler env_feb (req ''GET'' ''/api/clients'' NoData) db4
     = ((200, Clients [carl\<lparr>c_daysLeft := Some (JNum 0)\<rparr>]), db4)"
proof -
  have t: "truthy (Some (c_startDate carl))" "truthy (Some (c_duration carl))" "c_active carl"
    by (simp_all add: carl_def)
  have "refresh_client env_feb now carl = (carl\<lparr>c_daysLeft := Some (JNum 0)\<rparr>, False)" for now
    by (rule refresh_client_NaN[OF t(1,2) end_of_period_examples(3)])
  with t show ?thesis
    by (simp add: route_defs get_clients_def db4_def)
qed

text \<open>
  Claim C1, amended. GET /api/clients answers 200 with one client for each client of
  the store. Take a client whose startDate and duration are both truthy. When the end
  of its period (\<^verbatim>\<open>new Date(startDate)\<close> with its month advanced by
  \<^verbatim>\<open>parseInt(duration)\<close> through \<^verbatim>\<open>setMonth\<close>) is a time value \<open>endMs\<close>, let \<open>days\<close> be
  the ceiling of (\<open>endMs\<close> - now) divided by one day in milliseconds: the daysLeft of
  the client in the answer is \<open>days\<close> floored at 0; if the client was active and
  \<open>days\<close> is at most 0, the client in the answer is not active and the store written
  back holds exactly the clients of the answer; otherwise its active flag is as it
  was. When the end of the period is \<^verbatim>\<open>NaN\<close> (the start date is no date, or the
  duration no number), the daysLeft in the answer is 0 and the active flag is as it was.
\<close>

theorem clients_days_left:
  fixes e :: env and d :: db and r :: request
  assumes "httpMethod r = ''GET''" and "url r = ''/api/clients''"
    and "i < length (clients d)"
    and "truthy (Some (c_startDate (clients d ! i)))"
    and "truthy (Some (c_duration (clients d ! i)))"
  shows "\<exists>cs. fst (requestHandler e r d) = (200, Clients cs) \<and> length cs = length (clients d) \<and>
          (\<forall>endMs. end_of_period e (clients d ! i) = Some endMs \<longrightarrow>
             (let days = \<lceil>real_of_int (endMs - clock e 0) / 86400000\<rceil>
              in c_daysLeft (cs ! i) = Some (JNum (max 0 days)) \<and>
                 (c_active (clients d ! i) \<and> days \<le> 0 \<longrightarrow>
                    \<not> c_active (cs ! i) \<and> clients (snd (requestHandler e r d)) = cs) \<and>
                 (\<not> (c_active (clients d ! i) \<and> days \<le> 0) \<longrightarrow>
                    c_active (cs ! i) = c_active (clients d ! i)))) \<and>
          (end_of_period e (clients d ! i) = None \<longrightarrow>
             c_daysLeft (cs ! i) = Some (JNum 0) \<and>
             c_active (cs ! i) = c_active (clients d ! i))"
proof -
  let ?c = "clients d ! i"
  let ?cs = "map (\<lambda>c. fst (refresh_client e (clock e 0) c)) (clients d)"
  have 1: "fst (requestHandler e r d) = (200, Clients ?cs)"
    unfolding route_get_clients[OF assms(1,2)] by (rule get_clients_response)
  have 2: "length ?cs = length (clients d)" by simp
  have nth: "?cs ! i = fst (refresh_client e (clock e 0) ?c)"
    using assms(3) by simp
  have 3: "c_daysLeft (?cs ! i) = Some (JNum (max 0 days)) \<and>
           (c_active ?c \<and> days \<le> 0 \<longrightarrow>
              \<not> c_active (?cs ! i) \<and> clients (snd (requestHandler e r d)) = ?cs) \<and>
           (\<not> (c_active ?c \<and> days \<le> 0) \<longrightarrow> c_active (?cs ! i) = c_active ?c)"
    if ep: "end_of_period e ?c = Some endMs"
      and days: "days = \<lceil>real_of_int (endMs - clock e 0) / 86400000\<rceil>" for endMs days
  proof -
    have rc: "refresh_client e (clock e 0) ?c =
        (if c_active ?c \<and> days \<le> 0
         then (?c\<lparr>c_daysLeft := Some (JNum (max 0 days)), c_active := False\<rparr>, True)
         else (?c\<lparr>c_daysLeft := Some (JNum (max 0 days))\<rparr>, False))"
      unfolding days by (rule refresh_client_dated[OF assms(4,5) ep])
    have a: "c_daysLeft (?cs ! i) = Some (JNum (max 0 days))"
      unfolding nth rc by simp
    have b: "\<not> c_active (?cs ! i) \<and> clients (snd (requestHandler e r d)) = ?cs"
      if "c_active ?c \<and> days \<le> 0"
    proof -
      from that rc have "snd (refresh_client e (clock e 0) ?c)" by simp
      from get_clients_saved[OF assms(3) this] that show ?thesis
        unfolding route_get_clients[OF assms(1,2)] nth rc by simp
    qed
    have c: "c_active (?cs ! i) = c_active ?c" if "\<not> (c_active ?c \<and> days \<le> 0)"
      using that unfolding nth rc by simp
    from a b c show ?thesis by blast
  qed
  have 4: "c_daysLeft (?cs ! i) = Some (JNum 0) \<and> c_active (?cs ! i) = c_active ?c"
    if "end_of_period e ?c = None"
    unfolding nth refresh_client_NaN[OF assms(4,5) that] by simp
  from 1 2 3 4 show ?thesis
    by (intro exI[of _ ?cs]) (simp add: Let_def)
qed

text \<open>
  Ann has five days left; Bob's period is over and he is made inactive, and the store
  is written.
\<close>

theorem clients_days_left_witness:
  "end_of_period env_feb ann = Some 1707955200000 \<and>
   end_of_period env_feb bob = Some 1704067200000 \<and>
   requestHandler env_feb (req ''GET'' ''/api/clients'' NoData) db3
     = ((200, Clients [ann\<lparr>c_daysLeft := Some (JNum 5)\<rparr>,
                       bob\<lparr>c_daysLeft := Some (JNum 0), c_active := False\<rparr>]),
        db3\<lparr>clients := [ann\<lparr>c_daysLeft := Some (JNum 5)\<rparr>,
                         bob\<lparr>c_daysLeft := Some (JNum 0), c_active := False\<rparr>]\<rparr>)"
proof -
  let ?r = "req ''GET'' ''/api/clients'' NoData"
  have ck: "clock env_feb 0 = 1707566400000"
    by (simp add: env_feb_def)
  have ta: "truthy (Some (c_startDate ann))" "truthy (Some (c_duration ann))" "c_active ann"
    and tb: "truthy (Some (c_startDate bob))" "truthy (Some (c_duration bob))" "c_active bob"
    by (simp_all add: ann_def bob_def)
  have rr: "httpMethod ?r = ''GET''" "url ?r = ''/api/clients''"
    by (simp_all add: req_def)
  have a: "\<exists>cs. fst (requestHandler env_feb ?r db3) = (200, Clients cs) \<and>
              c_daysLeft (cs ! 0) = Some (JNum 5)"
    using clients_days_left [where e = env_feb and d = db3 and r = ?r and i = 0, OF rr]
      ta end_of_period_examples(1) ck
    by (auto simp add: db3_def Let_def)
  have b: "\<exists>cs. c_daysLeft (cs ! 1) = Some (JNum 0) \<and>
              \<not> c_active (cs ! 1) \<and> clients (snd (requestHandler env_feb ?r db3)) = cs"
    using clients_days_left [where e = env_feb and d = db3 and r = ?r and i = 1, OF rr]
      tb end_of_period_examples(2) ck
    by (auto simp add: db3_def Let_def)
  have ra: "refresh_client env_feb 1707566400000 ann = (ann\<lparr>c_daysLeft := Some (JNum 5)\<rparr>, False)"
    unfolding refresh_client_dated[OF ta(1,2) end_of_period_examples(1)] using ta(3) by simp
  have rb: "refresh_client env_feb 1707566400000 bob = (bob\<lparr>c_daysLeft := Some (JNum 0), c_active := False\<rparr>, True)"
    unfolding refresh_client_dated[OF tb(1,2) end_of_period_examples(2)] using tb(3) by simp
  show ?thesis
    using a b end_of_period_examples(1,2)
    by (simp add: route_defs get_clients_def ck ra rb db3_def)
qed

section \<open>Invariants of the store\<close>

text \<open>
  Case analysis on the route: a property of the response and the store holds after
  any request if it holds for the static responder, for the error answers and for
  each handler.
\<close>

lemma requestHandler_cases:
  assumes "Q (serveStatic e (url r), d)"
    and "\<And>msg. Q ((400, Error msg), d)"
    and "Q ((404, Error ''unknown endpoint''), d)"
    and "\<And>b. Q (post_login b d)"
    and "Q (get_clients e d)"
    and "\<And>b. Q (post_clients e b d)"
    and "Q (get_programs d)"
    and "\<And>b. Q (post_programs e b d)"
    and "Q (get_tickets d)"
    and "\<And>b. Q (post_support_create e b d)"
    and "Q (get_ticket (part (url r) 3) d)"
    and "\<And>b. Q (post_message e (part (url r) 3) b d)"
    and "\<And>b. httpMethod r = ''PUT'' \<Longrightarrow> prefix ''/api/tickets/'' (url r) \<Longrightarrow>
            parseBody (body r) = Inr b \<Longrightarrow> Q (put_ticket e (part (url r) 3) b d)"
    and "Q (delete_ticket (part (url r) 3) d)"
    and "Q (get_recipes d)"
    and "\<And>b. Q (post_recipes e b d)"
    and "\<And>b. Q (put_recipe (part (url r) 3) b d)"
    and "Q (delete_recipe (part (url r) 3) d)"
    and "Q (get_user_ticket r d)"
  shows "Q (requestHandler e r d)"
  unfolding requestHandler_def handleAPI_def Let_def with_body_def
  using assms by (simp split: sum.splits)

lemma all_update_first:
  "\<forall>x \<in> set xs. Q x \<Longrightarrow> (\<And>x. Q x \<Longrightarrow> Q (f x)) \<Longrightarrow> \<forall>x \<in> set (update_first P f xs). Q x"
  by (induction xs) auto

lemma all_remove_first:
  "\<forall>x \<in> set xs. Q x \<Longrightarrow> \<forall>x \<in> set (remove_first P xs). Q x"
  by (induction xs) auto

text \<open>Handlers that leave the tickets alone.\<close>

lemma tickets_unchanged:
  "tickets (snd (serveStatic e u, d)) = tickets d"
  "tickets (snd ((c, p), d)) = tickets d"
  "tickets (snd (post_login b d)) = tickets d"
  "tickets (snd (get_clients e d)) = tickets d"
  "tickets (snd (post_clients e b d)) = tickets d"
  "tickets (snd (get_programs d)) = tickets d"
  "tickets (snd (post_programs e b d)) = tickets d"
  "tickets (snd (get_tickets d)) = tickets d"
  "tickets (snd (get_ticket i d)) = tickets d"
  "tickets (snd (get_recipes d)) = tickets d"
  "tickets (snd (post_recipes e b d)) = tickets d"
  "tickets (snd (put_recipe i b d)) = tickets d"
  "tickets (snd (delete_recipe i d)) = tickets d"
  "tickets (snd (get_user_ticket r d)) = tickets d"
  by (simp_all add: post_login_def get_clients_def post_clients_def get_programs_def
      post_programs_def get_tickets_def get_ticket_def get_recipes_def post_recipes_def
      put_recipe_def delete_recipe_def get_user_ticket_def Let_def split: option.splits)

text \<open>What the other handlers do to the tickets.\<close>

lemma tickets_post_support_create:
  "tickets (snd (post_support_create e b d)) = tickets d \<or>
   (\<exists>t. t_id t = toString36 (clock e 0) \<and> t_status t = JStr ''open'' \<and>
        tickets (snd (post_support_create e b d)) = tickets d @ [t])"
  by (simp add: post_support_create_def Let_def)

lemma tickets_post_message:
  "tickets (snd (post_message e i b d)) = tickets d \<or>
   (\<exists>m. tickets (snd (post_message e i b d))
          = update_first (\<lambda>t. Some (t_id t) = i) (\<lambda>t. t\<lparr>t_messages := t_messages t @ [m]\<rparr>) (tickets d))"
  by (auto simp add: post_message_def Let_def split: option.splits)

lemma tickets_put_ticket:
  "tickets (snd (put_ticket e i b d)) = tickets d \<or>
   (truthy (field b ''status'') \<and>
    tickets (snd (put_ticket e i b d))
      = update_first (\<lambda>t. Some (t_id t) = i) (set_status e (value_of (field b ''status''))) (tickets d))"
  by (simp add: put_ticket_def Let_def split: option.splits)

lemma tickets_delete_ticket:
  "tickets (snd (delete_ticket i d)) = tickets d \<or>
   tickets (snd (delete_ticket i d)) = remove_first (\<lambda>t. Some (t_id t) = i) (tickets d)"
  by (simp add: delete_ticket_def)

lemma status_set_status: "t_status (set_status e s t) = s"
  by (simp add: set_status_def Let_def)

lemma id_set_status: "t_id (set_status e s t) = t_id t"
  by (simp add: set_status_def Let_def)

lemma valid_step:
  assumes inv: "\<forall>t \<in> set (tickets d). valid_status (t_status t)"
    and put: "httpMethod r = ''PUT'' \<and> prefix ''/api/tickets/'' (url r) \<and> truthy (requested_status r)
           \<longrightarrow> valid_status (value_of (requested_status r))"
  shows "\<forall>t \<in> set (tickets (snd (requestHandler e r d))). valid_status (t_status t)"
proof (rule requestHandler_cases[where Q = "\<lambda>x. \<forall>t \<in> set (tickets (snd x)). valid_status (t_status t)"])
  fix b
  show "\<forall>t \<in> set (tickets (snd (post_support_create e b d))). valid_status (t_status t)"
  proof -
    from tickets_post_support_create[of e b d] consider
      "tickets (snd (post_support_create e b d)) = tickets d"
      | t where "t_status t = JStr ''open''" "tickets (snd (post_support_create e b d)) = tickets d @ [t]"
      by blast
    then show ?thesis
    proof cases
      case 1
      with inv show ?thesis by simp
    next
      case 2
      with inv show ?thesis by (simp add: valid_status_def)
    qed
  qed
  show "\<forall>t \<in> set (tickets (snd (post_message e (part (url r) 3) b d))). valid_status (t_status t)"
  proof -
    from tickets_post_message[of e "part (url r) 3" b d] consider
      "tickets (snd (post_message e (part (url r) 3) b d)) = tickets d"
      | m where "tickets (snd (post_message e (part (url r) 3) b d))
          = update_first (\<lambda>t. Some (t_id t) = part (url r) 3) (\<lambda>t. t\<lparr>t_messages := t_messages t @ [m]\<rparr>) (tickets d)"
      by blast
    then show ?thesis
    proof cases
      case 1
      with inv show ?thesis by simp
    next
      case 2
      show ?thesis unfolding 2 by (rule all_update_first[OF inv]) simp
    qed
  qed
  show "\<forall>t \<in> set (tickets (snd (delete_ticket (part (url r) 3) d))). valid_status (t_status t)"
  proof -
    from tickets_delete_ticket[of "part (url r) 3" d] consider
      "tickets (snd (delete_ticket (part (url r) 3) d)) = tickets d"
      | "tickets (snd (delete_ticket (part (url r) 3) d))
          = remove_first (\<lambda>t. Some (t_id t) = part (url r) 3) (tickets d)"
      by blast
    then show ?thesis
    proof cases
      case 1
      with inv show ?thesis by simp
    next
      case 2
      show ?thesis unfolding 2 by (rule all_remove_first[OF inv])
    qed
  qed
next
  fix b
  assume r: "httpMethod r = ''PUT''" "prefix ''/api/tickets/'' (url r)" "parseBody (body r) = Inr b"
  with put have v: "truthy (field b ''status'') \<longrightarrow> valid_status (value_of (field b ''status''))"
    by (simp add: requested_status_def)
  from tickets_put_ticket[of e "part (url r) 3" b d] consider
      "tickets (snd (put_ticket e (part (url r) 3) b d)) = tickets d"
      | "truthy (field b ''status'')" "tickets (snd (put_ticket e (part (url r) 3) b d))
          = update_first (\<lambda>t. Some (t_id t) = part (url r) 3)
              (set_status e (value_of (field b ''status''))) (tickets d)"
      by blast
  then show "\<forall>t \<in> set (tickets (snd (put_ticket e (part (url r) 3) b d))). valid_status (t_status t)"
  proof cases
    case 1
    with inv show ?thesis by simp
  next
    case 2
    with v have "valid_status (value_of (field b ''status''))" by simp
    then show ?thesis unfolding 2(2)
      by (intro all_update_first[OF inv]) (simp add: status_set_status)
  qed
qed (insert inv, simp_all only: tickets_unchanged)

subsection \<open>Identifiers\<close>

lemma map_update_first:
  "(\<And>x. g (f x) = g x) \<Longrightarrow> map g (update_first P f xs) = map g xs"
  by (induction xs) auto

lemma set_remove_first: "set (remove_first P xs) \<subseteq> set xs"
  by (induction xs) auto

lemma distinct_map_remove_first:
  "distinct (map g xs) \<Longrightarrow> distinct (map g (remove_first P xs))"
proof (induction xs)
  case Nil
  then show ?case by simp
next
  case (Cons a xs)
  have "g a \<notin> g ` set (remove_first P xs)"
    using Cons.prems set_remove_first[of P xs] by auto
  with Cons show ?case by auto
qed

lemma ids_from_keep: "ids_from T ids \<Longrightarrow> ids_from (insert t T) ids"
  by (auto simp: ids_from_def)

lemma ids_from_add:
  assumes "ids_from T ids" and "t \<notin> T"
  shows "ids_from (insert t T) (ids @ [toString36 t])"
proof -
  have "toString36 t \<notin> set ids"
  proof
    assume "toString36 t \<in> set ids"
    with assms(1) obtain u where "u \<in> T" "toString36 t = toString36 u"
      by (auto simp: ids_from_def)
    with toString36_inj assms(2) show False by blast
  qed
  with assms(1) show ?thesis by (auto simp: ids_from_def)
qed

lemma ids_from_remove:
  assumes "ids_from T (map g xs)"
  shows "ids_from T (map g (remove_first P xs))"
  using assms set_remove_first[of P xs] distinct_map_remove_first[of g xs P]
  by (auto simp: ids_from_def)

lemma c_id_refresh_client: "c_id (fst (refresh_client e now c)) = c_id c"
  by (simp add: refresh_client_def Let_def split: option.splits)

lemma client_ids_step:
  "map c_id (clients (snd (requestHandler e r d))) = map c_id (clients d) \<or>
   map c_id (clients (snd (requestHandler e r d))) = map c_id (clients d) @ [toString36 (clock e 0)]"
  by (rule requestHandler_cases)
     (simp_all add: post_login_def get_clients_def post_clients_def get_programs_def
      post_programs_def get_tickets_def get_ticket_def get_recipes_def post_recipes_def
      put_recipe_def delete_recipe_def get_user_ticket_def post_support_create_def
      post_message_def put_ticket_def delete_ticket_def Let_def comp_def c_id_refresh_client
      split: option.splits)

lemma program_ids_step:
  "map p_id (programs (snd (requestHandler e r d))) = map p_id (programs d) \<or>
   map p_id (programs (snd (requestHandler e r d))) = map p_id (programs d) @ [toString36 (clock e 0)]"
  by (rule requestHandler_cases)
     (simp_all add: post_login_def get_clients_def post_clients_def get_programs_def
      post_programs_def get_tickets_def get_ticket_def get_recipes_def post_recipes_def
      put_recipe_def delete_recipe_def get_user_ticket_def post_support_create_def
      post_message_def put_ticket_def delete_ticket_def Let_def
      split: option.splits)

lemma ticket_ids_step:
  "map t_id (tickets (snd (requestHandler e r d))) = map t_id (tickets d) \<or>
   map t_id (tickets (snd (requestHandler e r d))) = map t_id (tickets d) @ [toString36 (clock e 0)] \<or>
   (\<exists>P. map t_id (tickets (snd (requestHandler e r d))) = map t_id (remove_first P (tickets d)))"
proof (rule requestHandler_cases)
  fix b
  show "map t_id (tickets (snd (post_support_create e b d))) = map t_id (tickets d) \<or>
   map t_id (tickets (snd (post_support_create e b d))) = map t_id (tickets d) @ [toString36 (clock e 0)] \<or>
   (\<exists>P. map t_id (tickets (snd (post_support_create e b d))) = map t_id (remove_first P (tickets d)))"
    using tickets_post_support_create[of e b d] by auto
  show "map t_id (tickets (snd (post_message e (part (url r) 3) b d))) = map t_id (tickets d) \<or>
   map t_id (tickets (snd (post_message e (part (url r) 3) b d))) = map t_id (tickets d) @ [toString36 (clock e 0)] \<or>
   (\<exists>P. map t_id (tickets (snd (post_message e (part (url r) 3) b d))) = map t_id (remove_first P (tickets d)))"
    using tickets_post_message[of e "part (url r) 3" b d] by (auto simp: map_update_first)
  show "map t_id (tickets (snd (put_ticket e (part (url r) 3) b d))) = map t_id (tickets d) \<or>
   map t_id (tickets (snd (put_ticket e (part (url r) 3) b d))) = map t_id (tickets d) @ [toString36 (clock e 0)] \<or>
   (\<exists>P. map t_id (tickets (snd (put_ticket e (part (url r) 3) b d))) = map t_id (remove_first P (tickets d)))"
    using tickets_put_ticket[of e "part (url r) 3" b d] by (auto simp: map_update_first id_set_status)
  show "map t_id (tickets (snd (delete_ticket (part (url r) 3) d))) = map t_id (tickets d) \<or>
   map t_id (tickets (snd (delete_ticket (part (url r) 3) d))) = map t_id (tickets d) @ [toString36 (clock e 0)] \<or>
   (\<exists>P. map t_id (tickets (snd (delete_ticket (part (url r) 3) d))) = map t_id (remove_first P (tickets d)))"
    using tickets_delete_ticket[of "part (url r) 3" d] by auto
qed (simp_all only: tickets_unchanged simp_thms)

lemma recipe_ids_step:
  "map r_id (recipes (snd (requestHandler e r d))) = map r_id (recipes d) \<or>
   map r_id (recipes (snd (requestHandler e r d))) = map r_id (recipes d) @ [toString36 (clock e 0)] \<or>
   (\<exists>P. map r_id (recipes (snd (requestHandler e r d))) = map r_id (remove_first P (recipes d)))"
proof (rule requestHandler_cases)
  fix b
  show "map r_id (recipes (snd (put_recipe (part (url r) 3) b d))) = map r_id (recipes d) \<or>
   map r_id (recipes (snd (put_recipe (part (url r) 3) b d))) = map r_id (recipes d) @ [toString36 (clock e 0)] \<or>
   (\<exists>P. map r_id (recipes (snd (put_recipe (part (url r) 3) b d))) = map r_id (remove_first P (recipes d)))"
    by (simp add: put_recipe_def map_update_first)
  show "map r_id (recipes (snd (delete_recipe (part (url r) 3) d))) = map r_id (recipes d) \<or>
   map r_id (recipes (snd (delete_recipe (part (url r) 3) d))) = map r_id (recipes d) @ [toString36 (clock e 0)] \<or>
   (\<exists>P. map r_id (recipes (snd (delete_recipe (part (url r) 3) d))) = map r_id (remove_first P (recipes d)))"
    by (auto simp add: delete_recipe_def)
qed (simp_all add: post_login_def get_clients_def post_clients_def get_programs_def
      post_programs_def get_tickets_def get_ticket_def get_recipes_def post_recipes_def
      get_user_ticket_def post_support_create_def
      post_message_def put_ticket_def delete_ticket_def Let_def
      split: option.splits)

lemma ids_from_step:
  assumes "ids_from T (map g xs)" and "t \<notin> T"
    and "ids' = map g xs \<or> ids' = map g xs @ [toString36 t] \<or> (\<exists>P. ids' = map g (remove_first P xs))"
  shows "ids_from (insert t T) ids'"
  using assms ids_from_keep ids_from_add ids_from_remove by metis

lemma unique_ids_step:
  assumes "unique_ids T d" and "clock e 0 \<notin> T"
  shows "unique_ids (insert (clock e 0) T) (snd (requestHandler e r d))"
proof -
  from assms(1) have c: "ids_from T (map c_id (clients d))" and p: "ids_from T (map p_id (programs d))"
    and t: "ids_from T (map t_id (tickets d))" and r: "ids_from T (map r_id (recipes d))"
    by (simp_all add: unique_ids_def)
  have "ids_from (insert (clock e 0) T) (map c_id (clients (snd (requestHandler e r d))))"
    using ids_from_step[OF c assms(2)] client_ids_step[of e r d] by blast
  moreover have "ids_from (insert (clock e 0) T) (map p_id (programs (snd (requestHandler e r d))))"
    using ids_from_step[OF p assms(2)] program_ids_step[of e r d] by blast
  moreover have "ids_from (insert (clock e 0) T) (map t_id (tickets (snd (requestHandler e r d))))"
    using ids_from_step[OF t assms(2)] ticket_ids_step[of e r d] by blast
  moreover have "ids_from (insert (clock e 0) T) (map r_id (recipes (snd (requestHandler e r d))))"
    using ids_from_step[OF r assms(2)] recipe_ids_step[of e r d] by blast
  ultimately show ?thesis by (simp add: unique_ids_def)
qed

lemma unique_ids_serve:
  assumes "unique_ids T d" and "distinct (map (\<lambda>(e, r). clock e 0) steps)"
    and "\<forall>(e, r) \<in> set steps. clock e 0 \<notin> T"
  shows "unique_ids (T \<union> (\<lambda>(e, r). clock e 0) ` set steps) (serve steps d)"
  using assms
proof (induction steps arbitrary: T d)
  case Nil
  then show ?case by simp
next
  case (Cons s steps)
  obtain e r where s: "s = (e, r)" by (cases s)
  from Cons.prems s have new: "clock e 0 \<notin> T" by simp
  have 1: "unique_ids (insert (clock e 0) T) (snd (requestHandler e r d))"
    by (rule unique_ids_step[OF Cons.prems(1) new])
  from Cons.prems(2) s have 2: "distinct (map (\<lambda>(e, r). clock e 0) steps)" by simp
  from Cons.prems(2,3) s have 3: "\<forall>(e', r') \<in> set steps. clock e' 0 \<notin> insert (clock e 0) T"
    by (auto simp: image_iff)
  from Cons.IH[OF 1 2 3] s show ?case by simp
qed

text \<open>The identifiers of the examples.\<close>

lemma ident_1000: "toString36 1000 = ''rs''"
  by code_simp

lemma ident_2000: "toString36 2000 = ''1jk''"
  by code_simp

lemma env_later_clock: "clock env_later k = 2000 + int k"
  by (simp add: env_later_def env0_def)

text \<open>
  Against claim C7 as stated: two recipes created at the same clock reading get the
  same id.
\<close>

theorem same_millisecond_same_id:
  "map r_id (recipes (serve [(env0, salad), (env0, salad)] initDB)) = [''rs'', ''rs''] \<and>
   \<not> distinct (map r_id (recipes (serve [(env0, salad), (env0, salad)] initDB)))"
  by (simp add: route_defs salad_def post_recipes_def env0_clock ident_1000 initDB_def)

text \<open>
  Claim C7, amended. After any sequence of requests, starting from the initial store,
  whose first clock readings are pairwise different, the ids of the clients, of the
  programs, of the tickets and of the recipes are pairwise different within each
  collection, and every id is the base-36 numeral of the first clock reading of one of
  the requests.
\<close>

theorem ids_unique_at_distinct_clock_readings:
  assumes "distinct (map (\<lambda>(e, r). clock e 0) steps)"
  defines "d \<equiv> serve steps initDB"
  shows "distinct (map c_id (clients d)) \<and> distinct (map p_id (programs d)) \<and>
         distinct (map t_id (tickets d)) \<and> distinct (map r_id (recipes d)) \<and>
         set (map c_id (clients d)) \<union> set (map p_id (programs d)) \<union>
         set (map t_id (tickets d)) \<union> set (map r_id (recipes d))
           \<subseteq> (\<lambda>(e, r). toString36 (clock e 0)) ` set steps"
proof -
  have "unique_ids {} initDB"
    by (simp add: unique_ids_def ids_from_def initDB_def)
  from unique_ids_serve[OF this assms(1)]
  have u: "unique_ids ((\<lambda>(e, r). clock e 0) ` set steps) d"
    by (simp add: d_def)
  have "toString36 ` (\<lambda>(e, r). clock e 0) ` set steps = (\<lambda>(e, r). toString36 (clock e 0)) ` set steps"
    by (auto simp: image_iff split: prod.splits)
  with u show ?thesis
    by (simp add: unique_ids_def ids_from_def)
qed

text \<open>Two recipes created one second apart.\<close>

theorem ids_unique_at_distinct_clock_readings_witness:
  "map r_id (recipes (serve [(env0, salad), (env_later, salad)] initDB)) = [''rs'', ''1jk''] \<and>
   distinct (map r_id (recipes (serve [(env0, salad), (env_later, salad)] initDB)))"
proof -
  have "distinct (map (\<lambda>(e, r). clock e 0) [(env0, salad), (env_later, salad)])"
    by (simp add: env0_clock env_later_clock)
  from ids_unique_at_distinct_clock_readings[OF this]
  have "distinct (map r_id (recipes (serve [(env0, salad), (env_later, salad)] initDB)))"
    by blast
  moreover have "map r_id (recipes (serve [(env0, salad), (env_later, salad)] initDB)) = [''rs'', ''1jk'']"
    by (simp add: route_defs salad_def post_recipes_def env0_clock env_later_clock
        ident_1000 ident_2000 initDB_def)
  ultimately show ?thesis by simp
qed

subsection \<open>Ticket status\<close>

lemma valid_serve:
  assumes "\<forall>t \<in> set (tickets d). valid_status (t_status t)"
    and "\<forall>(e, r) \<in> set steps.
          httpMethod r = ''PUT'' \<and> prefix ''/api/tickets/'' (url r) \<and> truthy (requested_status r)
           \<longrightarrow> valid_status (value_of (requested_status r))"
  shows "\<forall>t \<in> set (tickets (serve steps d)). valid_status (t_status t)"
  using assms
proof (induction steps arbitrary: d)
  case Nil
  then show ?case by simp
next
  case (Cons s steps)
  obtain e r where s: "s = (e, r)" by (cases s)
  from Cons.prems(2) s have
    "httpMethod r = ''PUT'' \<and> prefix ''/api/tickets/'' (url r) \<and> truthy (requested_status r)
           \<longrightarrow> valid_status (value_of (requested_status r))" by simp
  from valid_step[OF Cons.prems(1) this]
  have "\<forall>t \<in> set (tickets (snd (requestHandler e r d))). valid_status (t_status t)" .
  from Cons.IH[OF this] Cons.prems(2) s show ?case by simp
qed

lemma part_rs: "part ''/api/tickets/rs'' 3 = Some ''rs''"
  by (simp add: part_def)

lemma serve_reopened:
  "serve reopened initDB =
     initDB\<lparr>tickets := [ticket0\<lparr> t_status := JStr ''open'',
        t_messages := [\<lparr> m_sender = JStr ''admin'', m_time = 1000,
                         m_text = Some (JStr closing_text), m_attachment = None \<rparr>,
                       \<lparr> m_sender = JStr ''admin'', m_time = 1000,
                         m_text = Some (JStr reopening_text), m_attachment = None \<rparr>] \<rparr>]\<rparr>"
  by (simp add: reopened_def open_ticket_def put_status_def route_defs post_support_create_def
      put_ticket_def set_status_def admin_message_def find_ticket_def or_else_def part_rs
      env0_clock ident_1000 initDB_def ticket0_def)

text \<open>
  Against claim C6 as stated: a PUT with status "pending" on an existing ticket stores
  that status.
\<close>

theorem unchecked_status_is_stored:
  "map t_status (tickets (serve pending initDB)) = [JStr ''pending''] \<and>
   \<not> valid_status (JStr ''pending'')"
proof -
  have "serve pending initDB = snd (requestHandler env0 (put_status ''pending'') (serve reopened initDB))"
    by (simp add: pending_def reopened_def)
  then show ?thesis
    unfolding serve_reopened
    by (simp add: put_status_def route_defs put_ticket_def set_status_def find_ticket_def
        or_else_def part_rs initDB_def ticket0_def valid_status_def)
qed

text \<open>
  Claim C6, amended. After any sequence of requests, starting from the initial store,
  in which every PUT under /api/tickets/ that carries a truthy status carries "open"
  or "closed", every ticket of the store has status "open" or "closed".
\<close>

theorem ticket_status_open_or_closed:
  assumes "\<forall>(e, r) \<in> set steps.
          httpMethod r = ''PUT'' \<and> prefix ''/api/tickets/'' (url r) \<and> truthy (requested_status r)
           \<longrightarrow> requested_status r = Some (JStr ''open'') \<or> requested_status r = Some (JStr ''closed'')"
  shows "\<forall>t \<in> set (tickets (serve steps initDB)).
           t_status t = JStr ''open'' \<or> t_status t = JStr ''closed''"
proof -
  have 0: "\<forall>t \<in> set (tickets initDB). valid_status (t_status t)"
    by (simp add: initDB_def)
  have 1: "\<forall>(e, r) \<in> set steps.
          httpMethod r = ''PUT'' \<and> prefix ''/api/tickets/'' (url r) \<and> truthy (requested_status r)
           \<longrightarrow> valid_status (value_of (requested_status r))"
    using assms by (auto simp: valid_status_def)
  from valid_serve[OF 0 1] show ?thesis by (simp add: valid_status_def)
qed

text \<open>A ticket that was opened, closed and reopened.\<close>

theorem ticket_status_open_or_closed_witness:
  "map t_status (tickets (serve reopened initDB)) = [JStr ''open''] \<and>
   list_all (\<lambda>t. t_status t = JStr ''open'' \<or> t_status t = JStr ''closed'')
     (tickets (serve reopened initDB))"
proof -
  have "\<forall>(e, r) \<in> set reopened.
          httpMethod r = ''PUT'' \<and> prefix ''/api/tickets/'' (url r) \<and> truthy (requested_status r)
           \<longrightarrow> requested_status r = Some (JStr ''open'') \<or> requested_status r = Some (JStr ''closed'')"
    by (simp add: reopened_def open_ticket_def put_status_def req_def requested_status_def parseBody_def)
  from ticket_status_open_or_closed[OF this]
  have "list_all (\<lambda>t. t_status t = JStr ''open'' \<or> t_status t = JStr ''closed'')
     (tickets (serve reopened initDB))"
    by (simp add: list_all_iff)
  moreover have "map t_status (tickets (serve reopened initDB)) = [JStr ''open'']"
    unfolding serve_reopened by simp
  ultimately show ?thesis by simp
qed

section \<open>Static files and the public root\<close>

text \<open>Splitting at slashes, and joining again.\<close>

lemma split_on_not_Nil: "split_on c xs \<noteq> []"
  by (induction xs) (auto split: list.splits)

lemma split_on_append: "split_on c (xs @ c # ys) = split_on c xs @ split_on c ys"
proof (induction xs)
  case Nil
  then show ?case by simp
next
  case (Cons x xs)
  obtain s ss where "split_on c xs = s # ss"
    using split_on_not_Nil[of c xs] by (cases "split_on c xs") auto
  with Cons show ?case by simp
qed

lemma split_on_no_sep: "c \<notin> set s \<Longrightarrow> split_on c s = [s]"
  by (induction s) auto

lemma split_on_segments: "s \<in> set (split_on c xs) \<Longrightarrow> c \<notin> set s"
proof (induction xs arbitrary: s)
  case Nil
  then show ?case by simp
next
  case (Cons x xs)
  obtain t ts where t: "split_on c xs = t # ts"
    using split_on_not_Nil[of c xs] by (cases "split_on c xs") auto
  with Cons show ?case by (auto split: if_splits)
qed

lemma split_join_slash:
  "segs \<noteq> [] \<Longrightarrow> \<forall>s \<in> set segs. CHR ''/'' \<notin> set s \<Longrightarrow>
   split_on CHR ''/'' (join_slash segs) = segs"
proof (induction segs rule: join_slash.induct)
  case 1
  then show ?case by simp
next
  case (2 s)
  then show ?case by (simp add: split_on_no_sep)
next
  case (3 s t ss)
  then show ?case by (simp add: split_on_append split_on_no_sep)
qed

text \<open>
  On an absolute path \<^verbatim>\<open>normalizeString\<close> keeps proper segments only; proper segments
  it leaves as they are.
\<close>

lemma normalizeString_proper_result:
  "\<forall>s \<in> set res. proper s \<Longrightarrow> \<forall>s \<in> set ss. CHR ''/'' \<notin> set s \<Longrightarrow>
   \<forall>s \<in> set (normalizeString False res ss). proper s"
proof (induction ss arbitrary: res)
  case Nil
  then show ?case by simp
next
  case step: (Cons s ss)
  from step.prems(2) have rest: "\<forall>s \<in> set ss. CHR ''/'' \<notin> set s" by simp
  show ?case
  proof (cases "s = [] \<or> s = ''.''")
    case True
    with step.IH[OF step.prems(1) rest] show ?thesis by auto
  next
    case False
    show ?thesis
    proof (cases "s = ''..''")
      case True
      show ?thesis
      proof (cases res)
        case Nil
        have "\<forall>s \<in> set (normalizeString False [] ss). proper s"
          by (rule step.IH[OF _ rest]) simp
        with True Nil show ?thesis by simp
      next
        case (Cons t ts)
        with step.prems(1) have t: "t \<noteq> ''..''" and ts: "\<forall>s \<in> set ts. proper s"
          by (auto simp: proper_def)
        from step.IH[OF ts rest] True Cons t show ?thesis by simp
      qed
    next
      case ndd: False
      from False ndd step.prems have "\<forall>x \<in> set (s # res). proper x"
        by (auto simp: proper_def)
      from step.IH[OF this rest] False ndd show ?thesis by simp
    qed
  qed
qed

lemma normalizeString_proper_input:
  "\<forall>s \<in> set ss. proper s \<Longrightarrow> normalizeString a res ss = rev res @ ss"
  by (induction ss arbitrary: res) (auto simp: proper_def)

lemma normalizeString_append:
  "normalizeString a res (xs @ ys) = normalizeString a (rev (normalizeString a res xs)) ys"
  by (induction xs arbitrary: res) (auto split: list.splits)

lemma slash_join_slash:
  "segs \<noteq> [] \<Longrightarrow> CHR ''/'' # join_slash segs = concat (map ((#) CHR ''/'') segs)"
  by (induction segs rule: join_slash.induct) auto

lemma join_slash_not_Nil:
  "segs \<noteq> [] \<Longrightarrow> \<forall>s \<in> set segs. proper s \<Longrightarrow> join_slash segs \<noteq> []"
  by (induction segs rule: join_slash.induct) (auto simp: proper_def)

lemma hd_join_slash:
  "segs \<noteq> [] \<Longrightarrow> \<forall>s \<in> set segs. proper s \<Longrightarrow> hd (join_slash segs) \<noteq> CHR ''/''"
proof (induction segs rule: join_slash.induct)
  case 1
  then show ?case by simp
next
  case (2 s)
  then show ?case by (cases s) (auto simp: proper_def)
next
  case (3 s t ss)
  then show ?case by (cases s) (auto simp: proper_def)
qed

lemma last_join_slash:
  "segs \<noteq> [] \<Longrightarrow> \<forall>s \<in> set segs. proper s \<Longrightarrow> last (join_slash segs) \<noteq> CHR ''/''"
proof (induction segs rule: join_slash.induct)
  case 1
  then show ?case by simp
next
  case (2 s)
  then show ?case by (cases s rule: rev_cases) (auto simp: proper_def)
next
  case (3 s t ss)
  then have "join_slash (t # ss) \<noteq> []" by (intro join_slash_not_Nil) auto
  with 3 show ?case by simp
qed

lemma normalize_absolute:
  "normalize (CHR ''/'' # rest) =
     (let segs = normalizeString False [] (split_on CHR ''/'' rest)
      in if segs = [] then ''/''
         else CHR ''/'' # join_slash segs @ (if last (CHR ''/'' # rest) = CHR ''/'' then ''/'' else []))"
proof -
  let ?segs = "normalizeString False [] (split_on CHR ''/'' rest)"
  have p: "\<forall>s \<in> set ?segs. proper s"
    by (rule normalizeString_proper_result) (auto dest: split_on_segments)
  have "join_slash ?segs = [] \<longleftrightarrow> ?segs = []"
    using join_slash_not_Nil[OF _ p] by auto
  then show ?thesis
    by (simp add: normalize_def Let_def)
qed

lemma proper_no_slash: "\<forall>s \<in> set segs. proper s \<Longrightarrow> \<forall>s \<in> set segs. CHR ''/'' \<notin> set s"
  by (simp add: proper_def)

text \<open>Normalizing an absolute path made of proper segments, with more of them added.\<close>

lemma normalize_rooted:
  assumes "A \<noteq> []" and "\<forall>s \<in> set A. proper s"
  shows "normalize (CHR ''/'' # join_slash A) = CHR ''/'' # join_slash A"
proof -
  have "split_on CHR ''/'' (join_slash A) = A"
    using assms by (intro split_join_slash proper_no_slash)
  moreover have "normalizeString False [] A = A"
    using assms(2) by (simp add: normalizeString_proper_input)
  moreover have "last (CHR ''/'' # join_slash A) \<noteq> CHR ''/''"
    using last_join_slash[OF assms] join_slash_not_Nil[OF assms] by simp
  ultimately show ?thesis using assms(1)
    by (simp add: normalize_absolute Let_def)
qed

lemma normalize_rooted_append:
  assumes "A \<noteq> []" and "\<forall>s \<in> set A. proper s" and "B \<noteq> []" and "\<forall>s \<in> set B. proper s"
    and "t = [] \<or> t = ''/''"
  shows "normalize ((CHR ''/'' # join_slash A) @ CHR ''/'' # join_slash B @ t)
           = CHR ''/'' # join_slash (A @ B) @ t"
proof -
  let ?rest = "join_slash A @ CHR ''/'' # join_slash B @ t"
  have sA: "split_on CHR ''/'' (join_slash A) = A"
    using assms(1,2) by (intro split_join_slash proper_no_slash)
  have sB: "split_on CHR ''/'' (join_slash B) = B"
    using assms(3,4) by (intro split_join_slash proper_no_slash)
  have pAB: "\<forall>s \<in> set (A @ B). proper s" using assms(2,4) by auto
  have nAB: "normalizeString False [] (A @ B) = A @ B"
    using pAB by (simp add: normalizeString_proper_input)
  have lB: "last (join_slash B) \<noteq> CHR ''/''" and nB: "join_slash B \<noteq> []"
    using last_join_slash[OF assms(3,4)] join_slash_not_Nil[OF assms(3,4)] by simp_all
  from assms(5) show ?thesis
  proof
    assume t: "t = []"
    have "split_on CHR ''/'' ?rest = A @ B"
      using t by (simp add: split_on_append sA sB)
    moreover have "last (CHR ''/'' # ?rest) \<noteq> CHR ''/''"
      using t lB nB by simp
    ultimately show ?thesis using t assms(1) nAB
      by (simp add: normalize_absolute Let_def)
  next
    assume t: "t = ''/''"
    have "split_on CHR ''/'' ?rest = A @ split_on CHR ''/'' (join_slash B @ CHR ''/'' # [])"
      using t by (simp add: split_on_append sA)
    also have "\<dots> = A @ B @ [[]]"
      by (simp only: split_on_append sB) simp
    finally have sp: "split_on CHR ''/'' ?rest = (A @ B) @ [[]]" by simp
    have "normalizeString False [] ((A @ B) @ [[]])
            = normalizeString False (rev (normalizeString False [] (A @ B))) [[]]"
      by (rule normalizeString_append)
    then have "normalizeString False [] ((A @ B) @ [[]]) = A @ B"
      by (simp add: nAB)
    with sp have n: "normalizeString False [] (split_on CHR ''/'' ?rest) = A @ B" by simp
    have "last (CHR ''/'' # ?rest) = CHR ''/''"
      using t by simp
    with n t assms(1) show ?thesis
      by (simp add: normalize_absolute Let_def)
  qed
qed

lemma PUBLIC_DIR_rooted:
  assumes "dirname e = CHR ''/'' # join_slash D" and "\<forall>s \<in> set D. proper s"
  shows "PUBLIC_DIR e = CHR ''/'' # join_slash (D @ [''public''])"
proof -
  have pub: "proper ''public''" by (simp add: proper_def)
  have "split_on CHR ''/'' (join_slash D @ CHR ''/'' # ''public'')
          = split_on CHR ''/'' (join_slash D) @ [''public'']"
    by (simp only: split_on_append) (simp add: split_on_no_sep)
  moreover have "normalizeString False [] (split_on CHR ''/'' (join_slash D) @ [''public'']) = D @ [''public'']"
  proof (cases "D = []")
    case True
    then show ?thesis by simp
  next
    case False
    with assms(2) have "split_on CHR ''/'' (join_slash D) = D"
      by (intro split_join_slash proper_no_slash)
    moreover have "\<forall>s \<in> set (D @ [''public'']). proper s" using assms(2) pub by auto
    ultimately show ?thesis by (simp add: normalizeString_proper_input)
  qed
  ultimately have "normalize (CHR ''/'' # join_slash D @ CHR ''/'' # ''public'')
      = CHR ''/'' # join_slash (D @ [''public''])"
    by (simp add: normalize_absolute Let_def)
  then show ?thesis using assms(1)
    by (simp add: PUBLIC_DIR_def path_join_def)
qed

lemma safePath_absolute:
  "\<exists>segs t. (\<forall>s \<in> set segs. proper s) \<and> (t = [] \<or> t = ''/'') \<and> (segs = [] \<longrightarrow> t = []) \<and>
            safePath (CHR ''/'' # rest) = join_slash segs @ t"
proof -
  let ?segs = "normalizeString False [] (split_on CHR ''/'' rest)"
  let ?t = "if last (CHR ''/'' # rest) = CHR ''/'' then ''/'' else []"
  have p: "\<forall>s \<in> set ?segs. proper s"
    by (rule normalizeString_proper_result) (auto dest: split_on_segments)
  show ?thesis
  proof (cases "?segs = []")
    case True
    then have "safePath (CHR ''/'' # rest) = join_slash [] @ []"
      by (simp add: safePath_def normalize_absolute Let_def)
    then show ?thesis by (intro exI[of _ "[]"] exI[of _ "[]"]) simp
  next
    case False
    have "join_slash ?segs \<noteq> []" "hd (join_slash ?segs) \<noteq> CHR ''/''"
      using join_slash_not_Nil[OF False p] hd_join_slash[OF False p] by simp_all
    then have "dropWhile (\<lambda>c. c = CHR ''/'') (join_slash ?segs @ ?t) = join_slash ?segs @ ?t"
      by (cases "join_slash ?segs") auto
    with False have "safePath (CHR ''/'' # rest) = join_slash ?segs @ ?t"
      by (simp add: safePath_def normalize_absolute Let_def)
    with p False show ?thesis by (intro exI[of _ ?segs] exI[of _ ?t]) simp
  qed
qed

text \<open>
  A request whose URL is empty or begins with a slash is answered from a path made of
  the public directory and proper segments below it.
\<close>

lemma static_path_confined:
  assumes "dirname e = CHR ''/'' # join_slash D" and "\<forall>s \<in> set D. proper s"
    and "u = [] \<or> hd u = CHR ''/''"
  shows "\<exists>segs t. (\<forall>s \<in> set segs. proper s) \<and> (t = [] \<or> t = ''/'') \<and>
           filePath e u = PUBLIC_DIR e @ concat (map ((#) CHR ''/'') segs) @ t"
proof -
  let ?P = "D @ [''public'']"
  have pP: "\<forall>s \<in> set ?P. proper s" using assms(2) by (auto simp: proper_def)
  have pub: "PUBLIC_DIR e = CHR ''/'' # join_slash ?P"
    by (rule PUBLIC_DIR_rooted[OF assms(1,2)])
  have "\<exists>rest. (if u = ''/'' \<or> u = [] then ''/index.html'' else u) = CHR ''/'' # rest"
    using assms(3) by (cases u) auto
  then obtain rest where rp: "(if u = ''/'' \<or> u = [] then ''/index.html'' else u) = CHR ''/'' # rest"
    by blast
  obtain segs t where st: "\<forall>s \<in> set segs. proper s" "t = [] \<or> t = ''/''" "segs = [] \<longrightarrow> t = []"
    "safePath (CHR ''/'' # rest) = join_slash segs @ t"
    using safePath_absolute[of rest] by blast
  have fp: "filePath e u = path_join (CHR ''/'' # join_slash ?P) (join_slash segs @ t)"
    using rp st(4) by (simp add: filePath_def pub Let_def)
  show ?thesis
  proof (cases "segs = []")
    case True
    with st(3) fp have "filePath e u = normalize (CHR ''/'' # join_slash ?P)"
      by (simp add: path_join_def)
    also have "\<dots> = CHR ''/'' # join_slash ?P"
      by (rule normalize_rooted[OF _ pP]) simp
    finally have "filePath e u = PUBLIC_DIR e @ concat (map ((#) CHR ''/'') []) @ []"
      by (simp add: pub)
    then show ?thesis by (intro exI[of _ "[]"] exI[of _ "[]"]) simp
  next
    case False
    have ne: "join_slash segs \<noteq> []"
      by (rule join_slash_not_Nil[OF False st(1)])
    from fp ne have "filePath e u = normalize ((CHR ''/'' # join_slash ?P) @ CHR ''/'' # join_slash segs @ t)"
      by (simp add: path_join_def)
    also have "\<dots> = CHR ''/'' # join_slash (?P @ segs) @ t"
      by (rule normalize_rooted_append[OF _ pP False st(1,2)]) simp
    also have "\<dots> = concat (map ((#) CHR ''/'') (?P @ segs)) @ t"
      using slash_join_slash[of "?P @ segs"] by simp
    also have "\<dots> = PUBLIC_DIR e @ concat (map ((#) CHR ''/'') segs) @ t"
      using slash_join_slash[of ?P] by (simp add: pub)
    finally show ?thesis using st(1,2) by blast
  qed
qed

text \<open>
  Claim C5 says that no request outside /api/ makes the static responder serve a file
  from outside the public root. The code does so for the request below: its URL does
  not begin with /api/, the public root is \<^verbatim>\<open>/srv/app/public\<close>, the path read is
  \<^verbatim>\<open>/srv/app/database.json\<close>, and the answer is 200 with the content of that file.
  The URL does not begin with a slash, so \<^verbatim>\<open>path.normalize\<close> treats it as a relative
  path and keeps the \<^verbatim>\<open>..\<close> that climbs above its start.
\<close>

theorem static_serves_file_outside_public_root:
  "\<not> prefix ''/api/'' (url climbing) \<and>
   PUBLIC_DIR env_disk = ''/srv/app/public'' \<and>
   filePath env_disk (url climbing) = ''/srv/app/database.json'' \<and>
   requestHandler env_disk climbing initDB = ((200, File ''admin123''), initDB)"
  by (simp add: climbing_def req_def env_disk_def env0_def requestHandler_def serveStatic_def
      filePath_def safePath_def PUBLIC_DIR_def path_join_def normalize_def)

section \<open>The id in the URL of a ticket\<close>

text \<open>
  For an id without a slash, the URLs /api/tickets/:id and /api/tickets/:id/message
  give the handlers that id.
\<close>

lemma split_ticket_url:
  assumes "CHR ''/'' \<notin> set i"
  shows "split_on CHR ''/'' (''/api/tickets/'' @ i) = [[], ''api'', ''tickets'', i]"
    and "split_on CHR ''/'' (''/api/tickets/'' @ i @ ''/message'')
           = [[], ''api'', ''tickets'', i, ''message'']"
proof -
  have a: "split_on CHR ''/'' ''api'' = [''api'']" "split_on CHR ''/'' ''tickets'' = [''tickets'']"
    "split_on CHR ''/'' ''message'' = [''message'']" "split_on CHR ''/'' i = [i]"
    using assms by (simp_all add: split_on_no_sep)
  have "''/api/tickets/'' @ i = [] @ CHR ''/'' # (''api'' @ CHR ''/'' # (''tickets'' @ CHR ''/'' # i))"
    by simp
  then show "split_on CHR ''/'' (''/api/tickets/'' @ i) = [[], ''api'', ''tickets'', i]"
    by (simp only: split_on_append a) simp
  have "''/api/tickets/'' @ i @ ''/message''
      = [] @ CHR ''/'' # (''api'' @ CHR ''/'' # (''tickets'' @ CHR ''/'' # (i @ CHR ''/'' # ''message'')))"
    by simp
  then show "split_on CHR ''/'' (''/api/tickets/'' @ i @ ''/message'')
           = [[], ''api'', ''tickets'', i, ''message'']"
    by (simp only: split_on_append a) simp
qed

lemma part_ticket_url:
  assumes "CHR ''/'' \<notin> set i"
  shows "part (''/api/tickets/'' @ i) 3 = Some i"
    and "part (''/api/tickets/'' @ i @ ''/message'') 3 = Some i"
    and "part (''/api/tickets/'' @ i @ ''/message'') 4 = Some ''message''"
  unfolding part_def split_ticket_url[OF assms] by simp_all

end
